theory Spec2Isabelle
  imports Complex_Main "HOL-Library.AList" "HOL-Library.Sublist"
begin

section \<open>Python values, exceptions and the environment\<close>

text \<open>
  Values of the dynamically typed source: the JSON-representable values, datetimes
  (microseconds), and instances of the two policy classes \<open>PeriodicTask.Interval\<close>
  and \<open>PeriodicTask.Crontab\<close>, each carrying its instance dictionary.
  A Python dict with string keys is an association list read with \<open>map_of\<close>.
\<close>

datatype pyval =
    PNone
  | PBool bool
  | PInt int
  | PStr string
  | PList "pyval list"
  | PDict "(string \<times> pyval) list"
  | PDatetime int
  | PInterval "(string \<times> pyval) list"
  | PCrontab "(string \<times> pyval) list"

type_synonym pydict = "(string \<times> pyval) list"

datatype exn =
    ValidationError string
  | KeyError string
  | ResponseError string
  | UnboundLocalError string
  | AttributeError string
  | TypeError
  | ValueError
  | OtherError string

text \<open>Python truthiness (\<open>if x\<close>, \<open>not x\<close>, \<open>x and y\<close>).\<close>

fun truthy :: "pyval \<Rightarrow> bool" where
  "truthy PNone = False"
| "truthy (PBool b) = b"
| "truthy (PInt n) = (n \<noteq> 0)"
| "truthy (PStr s) = (s \<noteq> [])"
| "truthy (PList xs) = (xs \<noteq> [])"
| "truthy (PDict d) = (d \<noteq> [])"
| "truthy (PDatetime t) = True"
| "truthy (PInterval d) = True"
| "truthy (PCrontab d) = True"

definition bind_r :: "exn + 'a \<Rightarrow> ('a \<Rightarrow> exn + 'b) \<Rightarrow> exn + 'b" where
  "bind_r m f = (case m of Inl e \<Rightarrow> Inl e | Inr x \<Rightarrow> f x)"

text \<open>\<open>d.get(k)\<close> (default \<open>None\<close>), \<open>d.get(k, dflt)\<close> and \<open>d[k]\<close> on a dict.\<close>

definition dict_get :: "pydict \<Rightarrow> string \<Rightarrow> pyval" where
  "dict_get d k = (case map_of d k of None \<Rightarrow> PNone | Some v \<Rightarrow> v)"

definition dict_get_default :: "pydict \<Rightarrow> string \<Rightarrow> pyval \<Rightarrow> pyval" where
  "dict_get_default d k dflt = (case map_of d k of None \<Rightarrow> dflt | Some v \<Rightarrow> v)"

definition dict_item :: "pydict \<Rightarrow> string \<Rightarrow> exn + pyval" where
  "dict_item d k = (case map_of d k of None \<Rightarrow> Inl (KeyError k) | Some v \<Rightarrow> Inr v)"

text \<open>\<open>v[k]\<close> on an arbitrary value: only a dict can be subscripted by a string.\<close>

fun subscript :: "pyval \<Rightarrow> string \<Rightarrow> exn + pyval" where
  "subscript (PDict d) k = dict_item d k"
| "subscript v k = Inl TypeError"

text \<open>
  What the module takes from outside: the configured key prefix
  (\<open>current_app.conf.REDBEAT_KEY_PREFIX\<close>), the clock (\<open>_default_now\<close>,
  \<open>app.now\<close>), celery's \<open>remaining_estimate\<close> of the schedule built from a
  policy object, and the JSON encoder and decoder of the module \<open>decoder\<close>
  (\<open>None\<close> where \<open>json.dumps\<close> raises \<open>TypeError\<close> and where
  \<open>json.loads\<close> raises \<open>ValueError\<close>).
\<close>

record env =
  KEY_PREFIX :: string
  now :: int
  remaining_estimate :: "pyval \<Rightarrow> int \<Rightarrow> int"
  dumps :: "pydict \<Rightarrow> string option"
  loads :: "string \<Rightarrow> pyval option"

section \<open>The store\<close>

text \<open>
  The Redis database: the task keys (each a hash of sub-fields, or a bare string for a
  legacy record), the two pending sets under \<open>REDBEAT_DELETES_KEY\<close> and
  \<open>REDBEAT_UPDATES_KEY\<close>, the sorted set under \<open>REDBEAT_SCHEDULE_KEY\<close>, and
  the messages given to \<open>logger.error\<close>. A set is a duplicate-free list, in the
  order \<open>spop\<close> hands its members out.
\<close>

datatype rvalue = RString string | RHash "(string \<times> string) list"

record store =
  keyspace :: "(string \<times> rvalue) list"
  deletes :: "string list"
  updates :: "string list"
  schedule_zset :: "(string \<times> int) list"
  errlog :: "string list"

definition WRONGTYPE_msg :: string where
  "WRONGTYPE_msg = ''WRONGTYPE Operation against a key holding the wrong kind of value''"

definition hget :: "store \<Rightarrow> string \<Rightarrow> string \<Rightarrow> exn + string option" where
  "hget s k f =
     (case map_of (keyspace s) k of
        None \<Rightarrow> Inr None
      | Some (RString v) \<Rightarrow> Inl (ResponseError WRONGTYPE_msg)
      | Some (RHash h) \<Rightarrow> Inr (map_of h f))"

definition rget :: "store \<Rightarrow> string \<Rightarrow> exn + string option" where
  "rget s k =
     (case map_of (keyspace s) k of
        None \<Rightarrow> Inr None
      | Some (RString v) \<Rightarrow> Inr (Some v)
      | Some (RHash h) \<Rightarrow> Inl (ResponseError WRONGTYPE_msg))"

definition hset :: "store \<Rightarrow> string \<Rightarrow> string \<Rightarrow> string \<Rightarrow> exn + store" where
  "hset s k f v =
     (case map_of (keyspace s) k of
        None \<Rightarrow> Inr (s\<lparr>keyspace := AList.update k (RHash [(f, v)]) (keyspace s)\<rparr>)
      | Some (RString w) \<Rightarrow> Inl (ResponseError WRONGTYPE_msg)
      | Some (RHash h) \<Rightarrow>
          Inr (s\<lparr>keyspace := AList.update k (RHash (AList.update f v h)) (keyspace s)\<rparr>))"

definition rdelete :: "store \<Rightarrow> string \<Rightarrow> store" where
  "rdelete s k = s\<lparr>keyspace := AList.delete k (keyspace s)\<rparr>"

definition set_add :: "string \<Rightarrow> string list \<Rightarrow> string list" where
  "set_add x xs = (if x \<in> set xs then xs else xs @ [x])"

definition set_rem :: "string \<Rightarrow> string list \<Rightarrow> string list" where
  "set_rem x xs = removeAll x xs"

definition zadd :: "store \<Rightarrow> int \<Rightarrow> string \<Rightarrow> store" where
  "zadd s score member = s\<lparr>schedule_zset := AList.update member score (schedule_zset s)\<rparr>"

definition zrem :: "store \<Rightarrow> string \<Rightarrow> store" where
  "zrem s member = s\<lparr>schedule_zset := AList.delete member (schedule_zset s)\<rparr>"

definition zrangebyscore :: "store \<Rightarrow> int \<Rightarrow> int \<Rightarrow> string list" where
  "zrangebyscore s lo hi =
     filter (\<lambda>m. case map_of (schedule_zset s) m of
                   None \<Rightarrow> False
                 | Some sc \<Rightarrow> lo \<le> sc \<and> sc \<le> hi)
       (remdups (map fst (schedule_zset s)))"

text \<open>\<open>to_timestamp\<close>: \<open>time.mktime\<close> of the time tuple, which has whole seconds.\<close>

definition to_timestamp :: "int \<Rightarrow> int" where
  "to_timestamp dt = dt div 1000000"

section \<open>PeriodicTask\<close>

text \<open>
  A \<open>PeriodicTask\<close> instance is its instance dictionary (\<open>__dict__\<close>); reading
  an attribute that the instance does not carry gives the class attribute. Attributes
  are read at the declared names only.
\<close>

definition PeriodicTask_class :: pydict where
  "PeriodicTask_class =
     [(''name'', PNone), (''task'', PNone), (''type_'', PNone),
      (''interval'', PNone), (''crontab'', PNone),
      (''args'', PList []), (''kwargs'', PDict []),
      (''queue'', PNone), (''exchange'', PNone), (''routing_key'', PNone),
      (''expires'', PNone), (''enabled'', PBool True),
      (''date_changed'', PNone), (''description'', PNone),
      (''no_changes'', PBool False)]"

definition getattr :: "pydict \<Rightarrow> string \<Rightarrow> pyval" where
  "getattr self k =
     (case map_of self k of Some v \<Rightarrow> v | None \<Rightarrow> dict_get PeriodicTask_class k)"

text \<open>String concatenation \<open>prefix + v\<close>: a \<open>TypeError\<close> unless \<open>v\<close> is a string.\<close>

fun str_concat :: "string \<Rightarrow> pyval \<Rightarrow> exn + string" where
  "str_concat p (PStr v) = Inr (p @ v)"
| "str_concat p v = Inl TypeError"

definition is_Interval :: "pyval \<Rightarrow> bool" where
  "is_Interval v = (case v of PInterval d \<Rightarrow> True | _ \<Rightarrow> False)"

definition is_Crontab :: "pyval \<Rightarrow> bool" where
  "is_Crontab v = (case v of PCrontab d \<Rightarrow> True | _ \<Rightarrow> False)"

definition Interval_init :: "pyval \<Rightarrow> pyval \<Rightarrow> pyval" where
  "Interval_init every period = PInterval [(''every'', every), (''period'', period)]"

definition Crontab_init :: "pyval \<Rightarrow> pyval \<Rightarrow> pyval \<Rightarrow> pyval \<Rightarrow> pyval \<Rightarrow> pyval" where
  "Crontab_init minute hour day_of_week day_of_month month_of_year =
     PCrontab [(''minute'', minute), (''hour'', hour), (''day_of_week'', day_of_week),
               (''day_of_month'', day_of_month), (''month_of_year'', month_of_year)]"

text \<open>\<open>PeriodicTask.__init__(name, task, schedule, key, enabled, task_args, task_kwargs)\<close>.\<close>

definition PeriodicTask_init ::
  "env \<Rightarrow> pyval \<Rightarrow> pyval \<Rightarrow> pyval \<Rightarrow> pyval \<Rightarrow> pyval \<Rightarrow> pyval \<Rightarrow> pyval \<Rightarrow> exn + pydict" where
  "PeriodicTask_init ev name task schedule key enabled task_args task_kwargs =
     (let d0 = AList.update ''enabled'' enabled (AList.update ''task'' task []);
          d1 = (if is_Interval schedule then AList.update ''interval'' schedule d0 else d0);
          d2 = (if is_Crontab schedule then AList.update ''crontab'' schedule d1 else d1);
          d3 = AList.update ''kwargs'' task_kwargs (AList.update ''args'' task_args d2)
      in if \<not> truthy key
         then bind_r (str_concat (KEY_PREFIX ev) name)
                (\<lambda>n. Inr (AList.update ''name'' (PStr n) d3))
         else bind_r (str_concat (KEY_PREFIX ev) name)
                (\<lambda>n. bind_r (str_concat (n @ '':'') key)
                   (\<lambda>n'. Inr (AList.update ''name'' (PStr n') d3))))"

text \<open>\<open>clean\<close>: exactly one of \<open>interval\<close> and \<open>crontab\<close>.\<close>

definition clean :: "pydict \<Rightarrow> exn + unit" where
  "clean self =
     (if truthy (getattr self ''interval'') \<and> truthy (getattr self ''crontab'')
      then Inl (ValidationError ''Cannot define both interval and crontab schedule.'')
      else if \<not> (truthy (getattr self ''interval'') \<or> truthy (getattr self ''crontab''))
      then Inl (ValidationError ''Must defined either interval or crontab schedule.'')
      else Inr ())"

text \<open>\<open>v.__dict__\<close>: only the instances of the policy classes have one here.\<close>

fun obj_dict :: "pyval \<Rightarrow> exn + pydict" where
  "obj_dict (PInterval d) = Inr d"
| "obj_dict (PCrontab d) = Inr d"
| "obj_dict v = Inl (AttributeError ''__dict__'')"

text \<open>The name of a record as a store key. Names are strings; another value is
  refused here with \<open>TypeError\<close>.\<close>

fun key_of :: "pyval \<Rightarrow> exn + string" where
  "key_of (PStr n) = Inr n"
| "key_of v = Inl TypeError"

text \<open>The dictionary \<open>save\<close> serialises: \<open>__dict__\<close> with each policy object
  replaced by its own fields.\<close>

definition self_dict :: "pydict \<Rightarrow> exn + pydict" where
  "self_dict self =
     bind_r (if truthy (dict_get self ''interval'')
             then bind_r (obj_dict (getattr self ''interval''))
                    (\<lambda>i. Inr (AList.update ''interval'' (PDict i) self))
             else Inr self)
       (\<lambda>d1. if truthy (dict_get d1 ''crontab'')
              then bind_r (obj_dict (getattr self ''crontab''))
                     (\<lambda>c. Inr (AList.update ''crontab'' (PDict c) d1))
              else Inr d1)"

text \<open>
  \<open>save\<close>: the result is the exception raised, if any, and the store as the call
  leaves it. The three store commands run in the source's order; \<open>json.dumps\<close> is
  evaluated as an argument of \<open>hset\<close>, after \<open>srem\<close>.
\<close>

definition save :: "env \<Rightarrow> pydict \<Rightarrow> store \<Rightarrow> (exn + unit) \<times> store" where
  "save ev self s =
     (case clean self of
        Inl e \<Rightarrow> (Inl e, s)
      | Inr u \<Rightarrow>
         (case self_dict self of
            Inl e \<Rightarrow> (Inl e, s)
          | Inr d \<Rightarrow>
             (case key_of (getattr self ''name'') of
                Inl e \<Rightarrow> (Inl e, s)
              | Inr n \<Rightarrow>
                 (let s1 = s\<lparr>deletes := set_rem n (deletes s)\<rparr> in
                  case dumps ev d of
                    None \<Rightarrow> (Inl TypeError, s1)
                  | Some raw \<Rightarrow>
                     (case hset s1 n ''periodic'' raw of
                        Inl e \<Rightarrow> (Inl e, s1)
                      | Inr s2 \<Rightarrow> (Inr (), s2\<lparr>updates := set_add n (updates s2)\<rparr>))))))"

text \<open>\<open>delete\<close>: post the name to the pending deletes, then drop the key.\<close>

definition PeriodicTask_delete :: "pydict \<Rightarrow> store \<Rightarrow> (exn + unit) \<times> store" where
  "PeriodicTask_delete self s =
     (case key_of (getattr self ''name'') of
        Inl e \<Rightarrow> (Inl e, s)
      | Inr n \<Rightarrow> (Inr (), rdelete (s\<lparr>deletes := set_add n (deletes s)\<rparr>) n))"

text \<open>
  \<open>PeriodicTask.load\<close>, as a function of what the store answers to
  \<open>hget(task_name, 'periodic')\<close> and, where the source asks, to \<open>get(task_name)\<close>.
  An answer is the value read (\<open>None\<close> for no data) or the exception raised.
\<close>

definition load_answer ::
  "env \<Rightarrow> (exn + string option) \<Rightarrow> (exn + string option) \<Rightarrow> string \<Rightarrow> exn + pyval" where
  "load_answer ev hget_answer get_answer task_name =
     bind_r (case hget_answer of
               Inr raw \<Rightarrow> Inr raw
             | Inl (ResponseError msg) \<Rightarrow>
                 (if sublist ''WRONGTYPE'' msg then get_answer else Inl (ResponseError msg))
             | Inl e \<Rightarrow> Inl e)
       (\<lambda>raw. case raw of
                 None \<Rightarrow> Inl (KeyError task_name)
               | Some r \<Rightarrow>
                   (if r = [] then Inl (KeyError task_name)
                    else (case loads ev r of None \<Rightarrow> Inl ValueError | Some v \<Rightarrow> Inr v)))"

definition PeriodicTask_load :: "env \<Rightarrow> store \<Rightarrow> string \<Rightarrow> exn + pyval" where
  "PeriodicTask_load ev s task_name =
     load_answer ev (hget s task_name ''periodic'') (rget s task_name) task_name"

text \<open>The local variable \<open>schedule\<close> of \<open>from_dict\<close> after its two tests:
  \<open>None\<close> while it is unbound.\<close>

definition from_dict_schedule :: "pydict \<Rightarrow> exn + pyval option" where
  "from_dict_schedule d =
     bind_r (if truthy (dict_get d ''interval'')
             then bind_r (subscript (dict_get d ''interval'') ''every'')
                   (\<lambda>e. bind_r (subscript (dict_get d ''interval'') ''period'')
                   (\<lambda>p. Inr (Some (Interval_init e p))))
             else Inr None)
       (\<lambda>sch. if truthy (dict_get d ''crontab'')
               then bind_r (subscript (dict_get d ''crontab'') ''minute'')
                     (\<lambda>mi. bind_r (subscript (dict_get d ''crontab'') ''hour'')
                     (\<lambda>ho. bind_r (subscript (dict_get d ''crontab'') ''day_of_week'')
                     (\<lambda>dw. bind_r (subscript (dict_get d ''crontab'') ''day_of_month'')
                     (\<lambda>dm. bind_r (subscript (dict_get d ''crontab'') ''month_of_year'')
                     (\<lambda>my. Inr (Some (Crontab_init mi ho dw dm my)))))))
               else Inr sch)"

text \<open>The loop of \<open>from_dict\<close>: \<open>setattr(task, key, d[key])\<close> for each key but three.\<close>

definition setattr_step :: "pydict \<Rightarrow> string \<Rightarrow> pydict \<Rightarrow> pydict" where
  "setattr_step d key task =
     (if key \<in> {''interval'', ''crontab'', ''schedule''} then task
      else AList.update key (dict_get d key) task)"

definition from_dict :: "env \<Rightarrow> pyval \<Rightarrow> exn + pydict" where
  "from_dict ev v =
     (case v of
        PDict d \<Rightarrow>
          bind_r (from_dict_schedule d)
            (\<lambda>sch. bind_r (dict_item d ''name'')
            (\<lambda>name. bind_r (dict_item d ''task'')
            (\<lambda>task. bind_r (case sch of None \<Rightarrow> Inl (UnboundLocalError ''schedule'')
                                       | Some x \<Rightarrow> Inr x)
            (\<lambda>schedule.
               bind_r (PeriodicTask_init ev name task schedule PNone (PBool True)
                         (PList []) (PDict []))
            (\<lambda>t. Inr (fold (setattr_step d) (map fst d) t))))))
      | _ \<Rightarrow> Inl (AttributeError ''get''))"

definition from_key :: "env \<Rightarrow> store \<Rightarrow> string \<Rightarrow> exn + pydict" where
  "from_key ev s task_name = bind_r (PeriodicTask_load ev s task_name) (from_dict ev)"

text \<open>The property \<open>PeriodicTask.schedule\<close>. The celery schedule built from a policy
  object is represented by the policy object; celery's constructors are taken to
  accept its fields.\<close>

fun policy_schedule :: "pyval \<Rightarrow> exn + pyval" where
  "policy_schedule (PInterval d) = Inr (PInterval d)"
| "policy_schedule (PCrontab d) = Inr (PCrontab d)"
| "policy_schedule v = Inl (AttributeError ''schedule'')"

definition PeriodicTask_schedule :: "pydict \<Rightarrow> exn + pyval" where
  "PeriodicTask_schedule self =
     (if truthy (getattr self ''interval'') then policy_schedule (getattr self ''interval'')
      else if truthy (getattr self ''crontab'') then policy_schedule (getattr self ''crontab'')
      else Inl (OtherError ''must define interval or crontab schedule''))"

section \<open>RedBeatSchedulerEntry\<close>

record entry =
  task_obj :: pydict
  ename :: pyval
  etask :: pyval
  eschedule :: pyval
  eargs :: pyval
  ekwargs :: pyval
  options :: pydict
  total_run_count :: pyval
  last_run_at :: pyval

text \<open>
  \<open>RedBeatSchedulerEntry.load\<close>, as a function of the store's answer to
  \<open>hget(task_name, 'meta')\<close>. The local variable \<open>meta\<close> is bound only when
  \<open>hget\<close> returns; the handler returns for a \<open>WRONGTYPE\<close> message and otherwise
  falls through to the test of \<open>meta\<close>.
\<close>

datatype 'a local_var = Unbound | Bound 'a

definition Entry_load_rest :: "env \<Rightarrow> string option local_var \<Rightarrow> exn + pyval" where
  "Entry_load_rest ev meta =
     (case meta of
        Unbound \<Rightarrow> Inl (UnboundLocalError ''meta'')
      | Bound None \<Rightarrow> Inr (PDict [])
      | Bound (Some m) \<Rightarrow>
          (if m = [] then Inr (PDict [])
           else (case loads ev m of None \<Rightarrow> Inl ValueError | Some v \<Rightarrow> Inr v)))"

definition Entry_load_answer :: "env \<Rightarrow> (exn + string option) \<Rightarrow> exn + pyval" where
  "Entry_load_answer ev hget_answer =
     (case hget_answer of
        Inr meta \<Rightarrow> Entry_load_rest ev (Bound meta)
      | Inl (ResponseError msg) \<Rightarrow>
          (if sublist ''WRONGTYPE'' msg then Inr (PDict [])
           else Entry_load_rest ev Unbound)
      | Inl e \<Rightarrow> Inl e)"

definition Entry_load :: "env \<Rightarrow> store \<Rightarrow> string \<Rightarrow> exn + pyval" where
  "Entry_load ev s task_name = Entry_load_answer ev (hget s task_name ''meta'')"

text \<open>\<open>meta.get(k, dflt)\<close> on what \<open>json.loads\<close> returned.\<close>

fun meta_get :: "pyval \<Rightarrow> string \<Rightarrow> pyval \<Rightarrow> exn + pyval" where
  "meta_get (PDict d) k dflt = Inr (dict_get_default d k dflt)"
| "meta_get v k dflt = Inl (AttributeError ''get'')"

text \<open>\<open>RedBeatSchedulerEntry(task)\<close>, with the default \<open>total_run_count\<close> and
  \<open>last_run_at\<close>, as every call in the module has it.\<close>

definition Entry_init :: "env \<Rightarrow> store \<Rightarrow> pydict \<Rightarrow> exn + entry" where
  "Entry_init ev s t =
     bind_r (PeriodicTask_schedule t)
       (\<lambda>sch. bind_r (key_of (getattr t ''name''))
       (\<lambda>n. bind_r (Entry_load ev s n)
       (\<lambda>meta. bind_r (meta_get meta ''total_run_count'' (PInt 0))
       (\<lambda>trc. bind_r (meta_get meta ''last_run_at'' (PDatetime (now ev)))
       (\<lambda>lra. Inr \<lparr>task_obj = t, ename = getattr t ''name'', etask = getattr t ''task'',
                    eschedule = sch, eargs = getattr t ''args'',
                    ekwargs = getattr t ''kwargs'',
                    options = [(''queue'', getattr t ''queue''),
                               (''exchange'', getattr t ''exchange''),
                               (''routing_key'', getattr t ''routing_key''),
                               (''expires'', getattr t ''expires'')],
                    total_run_count = trc, last_run_at = lra\<rparr>)))))"

definition Entry_from_key :: "env \<Rightarrow> store \<Rightarrow> string \<Rightarrow> exn + entry" where
  "Entry_from_key ev s task_name = bind_r (from_key ev s task_name) (Entry_init ev s)"

text \<open>\<open>due_at\<close>: \<open>last_run_at + remaining_estimate(last_run_at)\<close> as a timestamp.\<close>

definition due_at :: "env \<Rightarrow> entry \<Rightarrow> exn + int" where
  "due_at ev e =
     (case last_run_at e of
        PDatetime t \<Rightarrow> Inr (to_timestamp (t + remaining_estimate ev (eschedule e) t))
      | _ \<Rightarrow> Inl TypeError)"

text \<open>\<open>x += 1\<close>.\<close>

fun py_incr :: "pyval \<Rightarrow> exn + pyval" where
  "py_incr (PInt n) = Inr (PInt (n + 1))"
| "py_incr (PBool b) = Inr (PInt ((if b then 1 else 0) + 1))"
| "py_incr v = Inl TypeError"

definition Entry_save :: "env \<Rightarrow> entry \<Rightarrow> store \<Rightarrow> (exn + unit) \<times> store" where
  "Entry_save ev e s =
     (case dumps ev [(''last_run_at'', last_run_at e),
                     (''total_run_count'', total_run_count e)] of
        None \<Rightarrow> (Inl TypeError, s)
      | Some raw \<Rightarrow>
          (case key_of (ename e) of
             Inl x \<Rightarrow> (Inl x, s)
           | Inr n \<Rightarrow>
               (case hset s n ''meta'' raw of
                  Inl x \<Rightarrow> (Inl x, s)
                | Inr s' \<Rightarrow> (Inr (), s'))))"

definition Entry_next :: "env \<Rightarrow> entry \<Rightarrow> store \<Rightarrow> (exn + entry) \<times> store" where
  "Entry_next ev e s =
     (let e1 = e\<lparr>last_run_at := PDatetime (now ev)\<rparr> in
      case py_incr (total_run_count e1) of
        Inl x \<Rightarrow> (Inl x, s)
      | Inr c \<Rightarrow>
          (let e2 = e1\<lparr>total_run_count := c\<rparr> in
           case Entry_save ev e2 s of
             (Inl x, s') \<Rightarrow> (Inl x, s')
           | (Inr u, s') \<Rightarrow> (Inr e2, s')))"

text \<open>\<open>is_due\<close>; the second argument is what \<open>ScheduleEntry.is_due\<close> of celery
  answers for the entry.\<close>

definition is_due :: "entry \<Rightarrow> (bool \<times> real) \<Rightarrow> bool \<times> real" where
  "is_due e super_is_due =
     (if \<not> truthy (getattr (task_obj e) ''enabled'') then (False, 5.0)
      else super_is_due)"

text \<open>
  \<open>from_entry(name, **entry)\<close>. The entry of the configured schedule is its items
  other than \<open>'schedule'\<close>, and what celery's \<open>maybe_schedule\<close> makes of that item
  (\<open>None\<close> when the entry has none): a crontab with its five original fields, a
  plain schedule with the whole seconds of \<open>run_every\<close>, or another object.
\<close>

datatype cel_schedule =
    CelCrontab pyval pyval pyval pyval pyval
  | CelSchedule int
  | CelOther

record conf_entry =
  items :: pydict
  schedule_item :: "cel_schedule option"

definition from_entry :: "env \<Rightarrow> store \<Rightarrow> string \<Rightarrow> conf_entry \<Rightarrow> exn + entry" where
  "from_entry ev s name entry =
     (if ''name'' \<in> fst ` set (items entry) then Inl TypeError
      else
        let opts = (if truthy (dict_get (items entry) ''options'')
                    then dict_get (items entry) ''options'' else PDict []);
            fields0 = AList.delete ''options'' (AList.delete ''relative'' (items entry));
            fields1 = AList.update ''name'' (PStr (KEY_PREFIX ev @ name)) fields0
        in case schedule_item entry of
             None \<Rightarrow> Inl (KeyError ''schedule'')
           | Some sch \<Rightarrow>
              (let fields2 =
                 (case sch of
                    CelCrontab mi ho dw dm my \<Rightarrow>
                      AList.update ''crontab''
                        (PDict [(''minute'', mi), (''hour'', ho), (''day_of_week'', dw),
                                (''day_of_month'', dm), (''month_of_year'', my)]) fields1
                  | CelSchedule secs \<Rightarrow>
                      AList.update ''interval''
                        (PDict [(''every'', PInt (max secs 0)),
                                (''period'', PStr ''seconds'')]) fields1
                  | CelOther \<Rightarrow> fields1);
                   fields3 = AList.update ''args''
                               (dict_get_default fields2 ''args'' (PList [])) fields2;
                   fields4 = AList.update ''kwargs''
                               (dict_get_default fields3 ''kwargs'' (PDict [])) fields3
               in bind_r (meta_get opts ''queue'' PNone)
                    (\<lambda>q. bind_r (meta_get opts ''exchange'' PNone)
                    (\<lambda>x. bind_r (meta_get opts ''routing_key'' PNone)
                    (\<lambda>r. bind_r (from_dict ev
                                    (PDict (AList.update ''routing_key'' r
                                       (AList.update ''exchange'' x
                                         (AList.update ''queue'' q fields4)))))
                            (Entry_init ev s))))))"

section \<open>RedBeatScheduler\<close>

text \<open>\<open>t.replace(old, '')\<close>.\<close>

function str_remove :: "string \<Rightarrow> string \<Rightarrow> string" where
  "str_remove old [] = []"
| "str_remove old (c # cs) =
     (if old \<noteq> [] \<and> prefix old (c # cs)
      then str_remove old (drop (length old) (c # cs))
      else c # str_remove old cs)"
  by pat_completeness auto
termination
  by (relation "measure (\<lambda>(old, t). length t)") auto

text \<open>\<open>get_all\<close>: the keys under the prefix (a prefix without glob characters), less
  the keys with a further \<open>:\<close>.\<close>

definition get_all :: "env \<Rightarrow> store \<Rightarrow> string list" where
  "get_all ev s =
     filter (\<lambda>t. CHR '':'' \<notin> set (str_remove (KEY_PREFIX ev) t))
       (filter (prefix (KEY_PREFIX ev)) (remdups (map fst (keyspace s))))"

text \<open>The bulk loops and \<open>reserve\<close> share one step,
  \<open>rdb.zadd(REDBEAT_SCHEDULE_KEY, entry.due_at, entry.name)\<close>: put the entry in the
  index at its due time. The calls of \<open>logger.info\<close> and \<open>logger.debug\<close> are
  left out; what goes to \<open>logger.error\<close> is kept in \<open>errlog\<close>.\<close>

definition zadd_entry :: "env \<Rightarrow> store \<Rightarrow> entry \<Rightarrow> exn + store" where
  "zadd_entry ev s e =
     bind_r (due_at ev e) (\<lambda>d. bind_r (key_of (ename e)) (\<lambda>n. Inr (zadd s d n)))"

fun load_from_database_loop :: "env \<Rightarrow> string list \<Rightarrow> store \<Rightarrow> (exn + unit) \<times> store" where
  "load_from_database_loop ev [] s = (Inr (), s)"
| "load_from_database_loop ev (task # tasks) s =
     (case from_key ev s task of
        Inl (KeyError k) \<Rightarrow> load_from_database_loop ev tasks s
      | Inl e \<Rightarrow> (Inl e, s)
      | Inr t \<Rightarrow>
          (case bind_r (Entry_init ev s t) (zadd_entry ev s) of
             Inl e \<Rightarrow> (Inl e, s)
           | Inr s' \<Rightarrow> load_from_database_loop ev tasks s'))"

definition load_from_database :: "env \<Rightarrow> store \<Rightarrow> (exn + unit) \<times> store" where
  "load_from_database ev s = load_from_database_loop ev (get_all ev s) s"

text \<open>
  \<open>update_from_dict\<close>. When \<open>from_entry\<close> raises, the handler logs and the body
  goes on with \<open>entry\<close> still bound to the configured dict, whose \<open>_task\<close>
  attribute does not exist. The log keeps the name of the entry.
\<close>

fun update_from_dict ::
  "env \<Rightarrow> (string \<times> conf_entry) list \<Rightarrow> store \<Rightarrow> (exn + unit) \<times> store" where
  "update_from_dict ev [] s = (Inr (), s)"
| "update_from_dict ev ((name, entry) # rest) s =
     (case from_entry ev s name entry of
        Inl exc \<Rightarrow> (Inl (AttributeError ''_task''), s\<lparr>errlog := errlog s @ [name]\<rparr>)
      | Inr e \<Rightarrow>
          (case save ev (task_obj e) s of
             (Inl x, s1) \<Rightarrow> (Inl x, s1)
           | (Inr u, s1) \<Rightarrow>
               (case key_of (ename e) of
                  Inl x \<Rightarrow> (Inl x, s1)
                | Inr n \<Rightarrow>
                    (let s2 = s1\<lparr>updates := set_rem n (updates s1)\<rparr> in
                     case zadd_entry ev s2 e of
                       Inl x \<Rightarrow> (Inl x, s2)
                     | Inr s3 \<Rightarrow> update_from_dict ev rest s3))))"

definition reserve :: "env \<Rightarrow> entry \<Rightarrow> store \<Rightarrow> (exn + entry) \<times> store" where
  "reserve ev e s =
     (case Entry_next ev e s of
        (Inl x, s1) \<Rightarrow> (Inl x, s1)
      | (Inr new_entry, s1) \<Rightarrow>
          (case zadd_entry ev s1 new_entry of
             Inl x \<Rightarrow> (Inl x, s1)
           | Inr s2 \<Rightarrow> (Inr new_entry, s2)))"

text \<open>\<open>schedule_changed\<close>: \<open>scard(deletes) or scard(updates)\<close>.\<close>

definition schedule_changed :: "store \<Rightarrow> nat" where
  "schedule_changed s =
     (if length (deletes s) \<noteq> 0 then length (deletes s) else length (updates s))"

definition spop_deletes :: "store \<Rightarrow> string option \<times> store" where
  "spop_deletes s =
     (case deletes s of [] \<Rightarrow> (None, s) | x # xs \<Rightarrow> (Some x, s\<lparr>deletes := xs\<rparr>))"

definition spop_updates :: "store \<Rightarrow> string option \<times> store" where
  "spop_updates s =
     (case updates s of [] \<Rightarrow> (None, s) | x # xs \<Rightarrow> (Some x, s\<lparr>updates := xs\<rparr>))"

text \<open>
  \<open>update_schedule\<close>. Each loop holds the member popped last and runs while it is
  truthy: it ends on \<open>None\<close> (the set is empty) and on the empty string.
\<close>

function deletes_loop :: "string option \<Rightarrow> store \<Rightarrow> store" where
  "deletes_loop delete s =
     (case delete of
        None \<Rightarrow> s
      | Some d \<Rightarrow>
          (if d = [] then s
           else deletes_loop (fst (spop_deletes (zrem s d))) (snd (spop_deletes (zrem s d)))))"
  by pat_completeness auto
termination
  by (relation "measure (\<lambda>(delete, s).
         length (deletes s) + (case delete of None \<Rightarrow> 0 | Some d \<Rightarrow> 1))")
     (auto simp: spop_deletes_def zrem_def split: list.splits)

text \<open>The body of the second loop: \<open>KeyError\<close> from the \<open>try\<close> block is passed
  over, another exception leaves the loop.\<close>

definition update_one :: "env \<Rightarrow> store \<Rightarrow> string \<Rightarrow> exn + store" where
  "update_one ev s update =
     (case bind_r (Entry_from_key ev s update) (zadd_entry ev s) of
        Inl (KeyError k) \<Rightarrow> Inr s
      | Inl e \<Rightarrow> Inl e
      | Inr s' \<Rightarrow> Inr s')"

function updates_loop :: "env \<Rightarrow> string option \<Rightarrow> store \<Rightarrow> (exn + unit) \<times> store" where
  "updates_loop ev update s =
     (case update of
        None \<Rightarrow> (Inr (), s)
      | Some u \<Rightarrow>
          (if u = [] then (Inr (), s)
           else (case update_one ev s u of
                   Inl e \<Rightarrow> (Inl e, s)
                 | Inr s1 \<Rightarrow> updates_loop ev (fst (spop_updates s1)) (snd (spop_updates s1)))))"
  by pat_completeness auto
termination
proof (relation "measure (\<lambda>(ev, update, s).
         length (updates s) + (case update of None \<Rightarrow> 0 | Some u \<Rightarrow> 1))", goal_cases)
  case 1
  show ?case by simp
next
  case (2 ev update s u s1)
  have "updates s1 = updates s"
    using 2(3)
    by (auto simp: update_one_def bind_r_def zadd_entry_def zadd_def
             split: sum.splits exn.splits)
  then show ?case
    using 2(1) by (auto simp: spop_updates_def split: list.splits)
qed

definition update_schedule :: "env \<Rightarrow> store \<Rightarrow> (exn + unit) \<times> store" where
  "update_schedule ev s =
     (let s1 = deletes_loop (fst (spop_deletes s)) (snd (spop_deletes s))
      in updates_loop ev (fst (spop_updates s1)) (snd (spop_updates s1)))"

text \<open>The dict comprehension of \<open>schedule\<close>: the first key that fails to load ends it.\<close>

fun load_entries :: "env \<Rightarrow> store \<Rightarrow> string list \<Rightarrow> exn + (string \<times> entry) list" where
  "load_entries ev s [] = Inr []"
| "load_entries ev s (key # due_tasks) =
     bind_r (Entry_from_key ev s key)
       (\<lambda>e. bind_r (load_entries ev s due_tasks) (\<lambda>r. Inr ((key, e) # r)))"

definition schedule :: "env \<Rightarrow> store \<Rightarrow> (exn + (string \<times> entry) list) \<times> store" where
  "schedule ev s =
     (case (if schedule_changed s \<noteq> 0 then update_schedule ev s else (Inr (), s)) of
        (Inl e, s1) \<Rightarrow> (Inl e, s1)
      | (Inr u, s1) \<Rightarrow>
          (let maxscore = to_timestamp (now ev);
               due_tasks = zrangebyscore s1 0 maxscore
           in (load_entries ev s1 due_tasks, s1)))"

section \<open>Example values\<close>

text \<open>A record \<open>foo\<close> with an interval of 30 seconds, the dictionary \<open>save\<close>
  serialises for it, a stored dictionary without a policy, and an environment whose
  encoder and decoder know the two texts.\<close>

definition t_foo :: pydict where
  "t_foo = [(''task'', PStr ''tasks.add''), (''enabled'', PBool True),
            (''interval'', PInterval [(''every'', PInt 30), (''period'', PStr ''seconds'')]),
            (''args'', PList [PInt 1, PInt 2]), (''kwargs'', PDict []),
            (''name'', PStr ''redbeat:foo'')]"

definition d_foo :: pydict where
  "d_foo = [(''task'', PStr ''tasks.add''), (''enabled'', PBool True),
            (''interval'', PDict [(''every'', PInt 30), (''period'', PStr ''seconds'')]),
            (''args'', PList [PInt 1, PInt 2]), (''kwargs'', PDict []),
            (''name'', PStr ''redbeat:foo'')]"

definition t_none :: pydict where
  "t_none = [(''task'', PStr ''tasks.add''), (''enabled'', PBool False),
             (''name'', PStr ''redbeat:none'')]"

definition d_bad :: pydict where
  "d_bad = [(''task'', PStr ''tasks.add''), (''name'', PStr ''redbeat:bad'')]"

definition d_baz :: pydict where
  "d_baz = [(''task'', PStr ''tasks.mul''), (''enabled'', PBool True),
            (''crontab'', PDict [(''minute'', PStr ''*/5''), (''hour'', PStr ''*''),
                                 (''day_of_week'', PStr ''*''), (''day_of_month'', PStr ''*''),
                                 (''month_of_year'', PStr ''*'')]),
            (''args'', PList []), (''kwargs'', PDict []),
            (''name'', PStr ''redbeat:baz'')]"

definition ev0 :: env where
  "ev0 = \<lparr>KEY_PREFIX = ''redbeat:'', now = 100000000,
          remaining_estimate = (\<lambda>p t. 30000000),
          dumps = (\<lambda>d. Some (if d = d_foo then ''{foo}'' else ''{}'')),
          loads = (\<lambda>r. if r = ''{foo}'' then Some (PDict d_foo)
                        else if r = ''{baz}'' then Some (PDict d_baz)
                        else if r = ''{bad}'' then Some (PDict d_bad) else None)\<rparr>"

definition s_empty :: store where
  "s_empty = \<lparr>keyspace = [], deletes = [], updates = [], schedule_zset = [], errlog = []\<rparr>"

text \<open>An entry of the disabled record \<open>none\<close>, and a store error that is not about
  the type of a key.\<close>

definition e_none :: entry where
  "e_none = \<lparr>task_obj = t_none, ename = PStr ''redbeat:none'', etask = PStr ''tasks.add'',
             eschedule = PNone, eargs = PList [], ekwargs = PDict [], options = [],
             total_run_count = PInt 7, last_run_at = PDatetime 0\<rparr>"

definition LOADING_msg :: string where
  "LOADING_msg = ''LOADING Redis is loading the dataset in memory''"

text \<open>An entry of the record \<open>foo\<close>, last run at 70 s.\<close>

definition e_foo :: entry where
  "e_foo = \<lparr>task_obj = t_foo, ename = PStr ''redbeat:foo'', etask = PStr ''tasks.add'',
            eschedule = PInterval [(''every'', PInt 30), (''period'', PStr ''seconds'')],
            eargs = PList [PInt 1, PInt 2], ekwargs = PDict [],
            options = [(''queue'', PNone), (''exchange'', PNone),
                       (''routing_key'', PNone), (''expires'', PNone)],
            total_run_count = PInt 0, last_run_at = PDatetime 70000000\<rparr>"

text \<open>
  A store whose index already holds \<open>foo\<close>, with the record \<open>baz\<close> saved and
  pending; that store after \<open>foo\<close> is saved, after \<open>foo\<close> is then deleted, and
  after the reconciliation that follows.
\<close>

definition s_indexed :: store where
  "s_indexed = \<lparr>keyspace = [(''redbeat:baz'', RHash [(''periodic'', ''{baz}'')])],
                deletes = [], updates = [''redbeat:baz''],
                schedule_zset = [(''redbeat:foo'', 50)], errlog = []\<rparr>"

definition s_saved :: store where
  "s_saved = \<lparr>keyspace = [(''redbeat:baz'', RHash [(''periodic'', ''{baz}'')]),
                          (''redbeat:foo'', RHash [(''periodic'', ''{foo}'')])],
              deletes = [], updates = [''redbeat:baz'', ''redbeat:foo''],
              schedule_zset = [(''redbeat:foo'', 50)], errlog = []\<rparr>"

definition s_deleted :: store where
  "s_deleted = \<lparr>keyspace = [(''redbeat:baz'', RHash [(''periodic'', ''{baz}'')])],
                deletes = [''redbeat:foo''], updates = [''redbeat:baz'', ''redbeat:foo''],
                schedule_zset = [(''redbeat:foo'', 50)], errlog = []\<rparr>"

definition s_reconciled :: store where
  "s_reconciled = \<lparr>keyspace = [(''redbeat:baz'', RHash [(''periodic'', ''{baz}'')])],
                   deletes = [], updates = [],
                   schedule_zset = [(''redbeat:baz'', 130)], errlog = []\<rparr>"


text \<open>A store with a record whose stored dictionary has no policy, and two entries of
  a configured schedule, the first without a \<open>schedule\<close> item.\<close>

definition s_bad :: store where
  "s_bad = \<lparr>keyspace = [(''redbeat:bad'', RHash [(''periodic'', ''{bad}'')]),
                        (''redbeat:foo'', RHash [(''periodic'', ''{foo}'')])],
            deletes = [], updates = [], schedule_zset = [], errlog = []\<rparr>"

definition c_bad :: conf_entry where
  "c_bad = \<lparr>items = [(''task'', PStr ''tasks.add'')], schedule_item = None\<rparr>"

definition c_good :: conf_entry where
  "c_good = \<lparr>items = [(''task'', PStr ''tasks.add'')],
             schedule_item = Some (CelSchedule 30)\<rparr>"

section \<open>Store lemmas\<close>

lemma hget_hset_same: "hset s k f v = Inr s' \<Longrightarrow> hget s' k f = Inr (Some v)"
  by (auto simp: hset_def hget_def update_conv' split: option.splits rvalue.splits)

lemma hset_frame:
  "hset s k f v = Inr s' \<Longrightarrow>
     deletes s' = deletes s \<and> updates s' = updates s \<and>
     schedule_zset s' = schedule_zset s \<and> errlog s' = errlog s"
  by (auto simp: hset_def split: option.splits rvalue.splits)

lemma hset_ok:
  "\<forall>w. map_of (keyspace s) k \<noteq> Some (RString w) \<Longrightarrow> \<exists>s'. hset s k f v = Inr s'"
  by (auto simp: hset_def split: option.splits rvalue.splits)

lemma clean_ok_iff:
  "clean self = Inr () \<longleftrightarrow>
     truthy (getattr self ''interval'') \<noteq> truthy (getattr self ''crontab'')"
  by (auto simp: clean_def)

section \<open>Saving a record\<close>

lemma save_invalid:
  "truthy (getattr self ''interval'') = truthy (getattr self ''crontab'')
     \<Longrightarrow> \<exists>msg. save ev self s = (Inl (ValidationError msg), s)"
  by (auto simp: save_def clean_def)

lemma save_writes:
  assumes a: "truthy (getattr self ''interval'') \<noteq> truthy (getattr self ''crontab'')"
    and n: "getattr self ''name'' = PStr n" and sd: "self_dict self = Inr d"
    and enc: "dumps ev d = Some raw"
    and k: "\<forall>w. map_of (keyspace s) n \<noteq> Some (RString w)"
  shows "\<exists>s'. save ev self s = (Inr (), s')
            \<and> deletes s' = set_rem n (deletes s)
            \<and> hget s' n ''periodic'' = Inr (Some raw)
            \<and> updates s' = set_add n (updates s)
            \<and> schedule_zset s' = schedule_zset s"
proof -
  define s1 where "s1 = s\<lparr>deletes := set_rem n (deletes s)\<rparr>"
  from k have "\<forall>w. map_of (keyspace s1) n \<noteq> Some (RString w)"
    by (simp add: s1_def)
  then obtain s2 where h: "hset s1 n ''periodic'' raw = Inr s2"
    using hset_ok by blast
  from a have c: "clean self = Inr ()"
    by (simp add: clean_ok_iff)
  have sv: "save ev self s = (Inr (), s2\<lparr>updates := set_add n (updates s2)\<rparr>)"
    using n sd enc c h by (simp add: save_def s1_def)
  have fr: "deletes s2 = deletes s1" "updates s2 = updates s1"
    "schedule_zset s2 = schedule_zset s1"
    using hset_frame[OF h] by simp_all
  have hg: "hget (s2\<lparr>updates := set_add n (updates s2)\<rparr>) n ''periodic'' = Inr (Some raw)"
    using hget_hset_same[OF h] by (simp add: hget_def)
  show ?thesis
    using sv fr hg by (simp add: s1_def)
qed

text \<open>
  C1. \<open>save\<close> raises \<open>ValidationError\<close> and leaves the store as it was when the
  record has both policies or neither. When it has exactly one (and a string name, a
  dictionary the encoder accepts, and a key that does not hold a legacy bare string,
  on which the store would refuse \<open>hset\<close>), \<open>save\<close> returns, the name is out of
  the pending deletes, the \<open>periodic\<close> field of its key holds the encoded
  dictionary, and the name is in the pending updates.
\<close>

theorem save_validates:
  "(truthy (getattr self ''interval'') = truthy (getattr self ''crontab'')
      \<longrightarrow> (\<exists>msg. save ev self s = (Inl (ValidationError msg), s)))
   \<and> (truthy (getattr self ''interval'') \<noteq> truthy (getattr self ''crontab'')
       \<and> getattr self ''name'' = PStr n \<and> self_dict self = Inr d \<and> dumps ev d = Some raw
       \<and> (\<forall>w. map_of (keyspace s) n \<noteq> Some (RString w))
      \<longrightarrow> (\<exists>s'. save ev self s = (Inr (), s')
            \<and> deletes s' = set_rem n (deletes s)
            \<and> n \<notin> set (deletes s')
            \<and> hget s' n ''periodic'' = Inr (Some raw)
            \<and> updates s' = set_add n (updates s)
            \<and> n \<in> set (updates s')
            \<and> schedule_zset s' = schedule_zset s))"
proof (intro conjI impI)
  assume "truthy (getattr self ''interval'') = truthy (getattr self ''crontab'')"
  then show "\<exists>msg. save ev self s = (Inl (ValidationError msg), s)"
    by (rule save_invalid)
next
  assume a: "truthy (getattr self ''interval'') \<noteq> truthy (getattr self ''crontab'')
       \<and> getattr self ''name'' = PStr n \<and> self_dict self = Inr d \<and> dumps ev d = Some raw
       \<and> (\<forall>w. map_of (keyspace s) n \<noteq> Some (RString w))"
  then obtain s' where "save ev self s = (Inr (), s')"
      "deletes s' = set_rem n (deletes s)" "hget s' n ''periodic'' = Inr (Some raw)"
      "updates s' = set_add n (updates s)" "schedule_zset s' = schedule_zset s"
    using save_writes[of self n d ev raw s] by blast
  then show "\<exists>s'. save ev self s = (Inr (), s')
            \<and> deletes s' = set_rem n (deletes s)
            \<and> n \<notin> set (deletes s')
            \<and> hget s' n ''periodic'' = Inr (Some raw)
            \<and> updates s' = set_add n (updates s)
            \<and> n \<in> set (updates s')
            \<and> schedule_zset s' = schedule_zset s"
    by (auto simp: set_rem_def set_add_def)
qed

lemma self_dict_t_foo: "self_dict t_foo = Inr d_foo"
  by (simp add: self_dict_def t_foo_def d_foo_def dict_get_def getattr_def bind_r_def)


theorem save_validates_witness:
  "truthy (getattr t_none ''interval'') = truthy (getattr t_none ''crontab'')
   \<and> (\<exists>msg. save ev0 t_none (s_empty\<lparr>deletes := [''redbeat:none'']\<rparr>)
              = (Inl (ValidationError msg), s_empty\<lparr>deletes := [''redbeat:none'']\<rparr>))
   \<and> truthy (getattr t_foo ''interval'') \<noteq> truthy (getattr t_foo ''crontab'')
   \<and> (\<exists>s'. save ev0 t_foo (s_empty\<lparr>deletes := [''redbeat:foo'']\<rparr>) = (Inr (), s')
         \<and> deletes s' = [] \<and> hget s' ''redbeat:foo'' ''periodic'' = Inr (Some ''{foo}'')
         \<and> updates s' = [''redbeat:foo''])"
proof -
  have g: "truthy (getattr t_none ''interval'') = truthy (getattr t_none ''crontab'')"
    by (simp add: getattr_def t_none_def dict_get_def PeriodicTask_class_def)
  have h: "truthy (getattr t_foo ''interval'') \<noteq> truthy (getattr t_foo ''crontab'')
       \<and> getattr t_foo ''name'' = PStr ''redbeat:foo'' \<and> self_dict t_foo = Inr d_foo
       \<and> dumps ev0 d_foo = Some ''{foo}''
       \<and> (\<forall>w. map_of (keyspace (s_empty\<lparr>deletes := [''redbeat:foo'']\<rparr>)) ''redbeat:foo''
               \<noteq> Some (RString w))"
    by (simp add: self_dict_t_foo) (simp add: getattr_def t_foo_def dict_get_def PeriodicTask_class_def
         ev0_def s_empty_def)
  from save_validates[where self=t_none and ev=ev0 and s="s_empty\<lparr>deletes := [''redbeat:none'']\<rparr>"] g
  have 1: "\<exists>msg. save ev0 t_none (s_empty\<lparr>deletes := [''redbeat:none'']\<rparr>)
              = (Inl (ValidationError msg), s_empty\<lparr>deletes := [''redbeat:none'']\<rparr>)"
    by blast
  from save_validates[where self=t_foo and n="''redbeat:foo''" and d=d_foo and ev=ev0
         and raw="''{foo}''" and s="s_empty\<lparr>deletes := [''redbeat:foo'']\<rparr>"] h
  have 2: "\<exists>s'. save ev0 t_foo (s_empty\<lparr>deletes := [''redbeat:foo'']\<rparr>) = (Inr (), s')
         \<and> deletes s' = [] \<and> hget s' ''redbeat:foo'' ''periodic'' = Inr (Some ''{foo}'')
         \<and> updates s' = [''redbeat:foo'']"
    by (auto simp: set_rem_def set_add_def s_empty_def)
  from g h 1 2 show ?thesis by blast
qed

section \<open>Loading a record\<close>

lemma sublist_WRONGTYPE_msg: "sublist ''WRONGTYPE'' WRONGTYPE_msg"
  unfolding WRONGTYPE_msg_def by (simp add: sublist_code)

lemma not_sublist_LOADING_msg: "\<not> sublist ''WRONGTYPE'' LOADING_msg"
  unfolding LOADING_msg_def by (simp add: sublist_code)

text \<open>
  C6. \<open>PeriodicTask.load\<close> raises \<open>KeyError\<close> with the task name when the
  \<open>periodic\<close> field holds no data: nothing, or the empty text. A
  \<open>ResponseError\<close> whose message has \<open>WRONGTYPE\<close> in it makes \<open>load\<close> read the
  bare key instead and treat that answer as it would have treated the field. Every
  other exception of the store is the result of \<open>load\<close>. On the store: a missing
  key and a hash without the field give \<open>KeyError\<close>, a legacy bare string is decoded.
\<close>

theorem load_answer_cases:
  "(hget_answer = Inr None \<or> hget_answer = Inr (Some [])
      \<longrightarrow> load_answer ev hget_answer get_answer task_name = Inl (KeyError task_name))
   \<and> (hget_answer = Inl (ResponseError msg) \<and> sublist ''WRONGTYPE'' msg
      \<longrightarrow> (case get_answer of
             Inl e \<Rightarrow> load_answer ev hget_answer get_answer task_name = Inl e
           | Inr raw \<Rightarrow> load_answer ev hget_answer get_answer task_name
                         = load_answer ev (Inr raw) get_answer task_name))
   \<and> (hget_answer = Inl e \<and> (\<forall>m. e = ResponseError m \<longrightarrow> \<not> sublist ''WRONGTYPE'' m)
      \<longrightarrow> load_answer ev hget_answer get_answer task_name = Inl e)
   \<and> (map_of (keyspace s) task_name = None
        \<or> (\<exists>h. map_of (keyspace s) task_name = Some (RHash h)
                 \<and> (map_of h ''periodic'' = None \<or> map_of h ''periodic'' = Some []))
        \<or> map_of (keyspace s) task_name = Some (RString [])
      \<longrightarrow> PeriodicTask_load ev s task_name = Inl (KeyError task_name))
   \<and> (map_of (keyspace s) task_name = Some (RString v) \<and> v \<noteq> []
      \<longrightarrow> PeriodicTask_load ev s task_name
            = (case loads ev v of None \<Rightarrow> Inl ValueError | Some x \<Rightarrow> Inr x))"
proof (intro conjI impI)
  show "PeriodicTask_load ev s task_name = Inl (KeyError task_name)"
    if "map_of (keyspace s) task_name = None
        \<or> (\<exists>h. map_of (keyspace s) task_name = Some (RHash h)
                 \<and> (map_of h ''periodic'' = None \<or> map_of h ''periodic'' = Some []))
        \<or> map_of (keyspace s) task_name = Some (RString [])"
    using that sublist_WRONGTYPE_msg
    by (auto simp: PeriodicTask_load_def load_answer_def hget_def rget_def bind_r_def)
  show "PeriodicTask_load ev s task_name
            = (case loads ev v of None \<Rightarrow> Inl ValueError | Some x \<Rightarrow> Inr x)"
    if "map_of (keyspace s) task_name = Some (RString v) \<and> v \<noteq> []"
    using that sublist_WRONGTYPE_msg
    by (auto simp: PeriodicTask_load_def load_answer_def hget_def rget_def bind_r_def)
qed (auto simp: load_answer_def bind_r_def split: sum.splits exn.splits)

theorem load_answer_cases_witness:
  "load_answer ev0 (Inr None) (Inr None) ''redbeat:foo'' = Inl (KeyError ''redbeat:foo'')
   \<and> load_answer ev0 (Inl (ResponseError WRONGTYPE_msg)) (Inr (Some ''{foo}'')) ''redbeat:foo''
       = Inr (PDict d_foo)
   \<and> load_answer ev0 (Inl (ResponseError LOADING_msg)) (Inr (Some ''{foo}'')) ''redbeat:foo''
       = Inl (ResponseError LOADING_msg)
   \<and> PeriodicTask_load ev0 s_empty ''redbeat:foo'' = Inl (KeyError ''redbeat:foo'')
   \<and> PeriodicTask_load ev0 (s_empty\<lparr>keyspace := [(''redbeat:foo'', RString ''{foo}'')]\<rparr>)
        ''redbeat:foo'' = Inr (PDict d_foo)"
proof -
  have a: "load_answer ev0 (Inr (Some ''{foo}'')) (Inr (Some ''{foo}'')) ''redbeat:foo''
             = Inr (PDict d_foo)"
    by (simp add: load_answer_def bind_r_def ev0_def)
  have 1: "load_answer ev0 (Inr None) (Inr None) ''redbeat:foo'' = Inl (KeyError ''redbeat:foo'')"
    using load_answer_cases[where hget_answer="Inr None" and ev=ev0 and get_answer="Inr None"
        and task_name="''redbeat:foo''"]
    by simp
  have 2: "load_answer ev0 (Inl (ResponseError WRONGTYPE_msg)) (Inr (Some ''{foo}''))
             ''redbeat:foo'' = Inr (PDict d_foo)"
    using load_answer_cases[where hget_answer="Inl (ResponseError WRONGTYPE_msg)"
        and msg=WRONGTYPE_msg and ev=ev0 and get_answer="Inr (Some ''{foo}'')"
        and task_name="''redbeat:foo''"] sublist_WRONGTYPE_msg a
    by simp
  have 3: "load_answer ev0 (Inl (ResponseError LOADING_msg)) (Inr (Some ''{foo}''))
             ''redbeat:foo'' = Inl (ResponseError LOADING_msg)"
    using load_answer_cases[where hget_answer="Inl (ResponseError LOADING_msg)"
        and e="ResponseError LOADING_msg" and ev=ev0 and get_answer="Inr (Some ''{foo}'')"
        and task_name="''redbeat:foo''"] not_sublist_LOADING_msg
    by simp
  have 4: "PeriodicTask_load ev0 s_empty ''redbeat:foo'' = Inl (KeyError ''redbeat:foo'')"
    using load_answer_cases[where s=s_empty and ev=ev0 and task_name="''redbeat:foo''"]
    by (simp add: s_empty_def)
  have 5: "PeriodicTask_load ev0 (s_empty\<lparr>keyspace := [(''redbeat:foo'', RString ''{foo}'')]\<rparr>)
        ''redbeat:foo'' = Inr (PDict d_foo)"
    using load_answer_cases[where s="s_empty\<lparr>keyspace := [(''redbeat:foo'', RString ''{foo}'')]\<rparr>"
        and ev=ev0 and task_name="''redbeat:foo''" and v="''{foo}''"]
    by (simp add: s_empty_def ev0_def)
  from 1 2 3 4 5 show ?thesis by blast
qed

section \<open>Loading the run state\<close>

text \<open>
  C10. When \<open>hget\<close> of the \<open>meta\<close> field raises a \<open>ResponseError\<close> whose text
  does not contain \<open>WRONGTYPE\<close>, \<open>RedBeatSchedulerEntry.load\<close> neither returns
  nor re-raises it: the handler falls through to the test of \<open>meta\<close>, which was
  never assigned, and the call ends in an unbound-local error.
\<close>

theorem Entry_load_unbound:
  "\<not> sublist ''WRONGTYPE'' msg \<Longrightarrow>
     Entry_load_answer ev (Inl (ResponseError msg)) = Inl (UnboundLocalError ''meta'')"
  by (simp add: Entry_load_answer_def Entry_load_rest_def)

theorem Entry_load_unbound_witness:
  "Entry_load_answer ev0 (Inl (ResponseError LOADING_msg)) = Inl (UnboundLocalError ''meta'')"
  using Entry_load_unbound[OF not_sublist_LOADING_msg, of ev0] by simp

section \<open>Disabled entries\<close>

text \<open>
  C9. An entry whose record has \<open>enabled = False\<close> is not due, with a delay of
  \<open>5.0\<close> seconds, whatever its run state is and whatever celery's own
  \<open>is_due\<close> would answer.
\<close>

theorem is_due_disabled:
  "getattr (task_obj e) ''enabled'' = PBool False \<Longrightarrow> is_due e super_is_due = (False, 5.0)"
  by (simp add: is_due_def)

theorem is_due_disabled_witness:
  "getattr (task_obj e_none) ''enabled'' = PBool False \<and> is_due e_none (True, 0) = (False, 5.0)"
proof -
  have h: "getattr (task_obj e_none) ''enabled'' = PBool False"
    by (simp add: e_none_def t_none_def getattr_def)
  from is_due_disabled[OF h, of "(True, 0)"] h show ?thesis by simp
qed

section \<open>Reserving an entry\<close>

text \<open>
  C3. \<open>reserve\<close> returns the entry with \<open>total_run_count\<close> one higher and
  \<open>last_run_at\<close> set to the current time, after writing that run state to the
  \<open>meta\<close> field of the entry's key and putting the entry's name in the index at
  the due time computed from the new \<open>last_run_at\<close>. The other members of the
  index and the pending sets stay as they were. (The entry has an integer count and a
  string name, the encoder accepts the run state, and the key is not a legacy bare
  string, on which the store would refuse \<open>hset\<close>.)
\<close>

theorem reserve_advances:
  assumes c: "total_run_count e = PInt c"
    and n: "ename e = PStr n"
    and d: "dumps ev [(''last_run_at'', PDatetime (now ev)),
                      (''total_run_count'', PInt (c + 1))] = Some raw"
    and k: "\<forall>w. map_of (keyspace s) n \<noteq> Some (RString w)"
  shows "\<exists>s'. reserve ev e s
            = (Inr (e\<lparr>last_run_at := PDatetime (now ev), total_run_count := PInt (c + 1)\<rparr>), s')
          \<and> hget s' n ''meta'' = Inr (Some raw)
          \<and> map_of (schedule_zset s') n
              = Some (to_timestamp (now ev + remaining_estimate ev (eschedule e) (now ev)))
          \<and> (\<forall>m. m \<noteq> n \<longrightarrow> map_of (schedule_zset s') m = map_of (schedule_zset s) m)
          \<and> deletes s' = deletes s \<and> updates s' = updates s"
proof -
  define e2 where "e2 = e\<lparr>last_run_at := PDatetime (now ev), total_run_count := PInt (c + 1)\<rparr>"
  from k obtain s1 where h: "hset s n ''meta'' raw = Inr s1"
    using hset_ok by blast
  have nx: "Entry_next ev e s = (Inr e2, s1)"
    using c n d h by (simp add: Entry_next_def Entry_save_def e2_def Let_def)
  define due where "due = to_timestamp (now ev + remaining_estimate ev (eschedule e) (now ev))"
  have za: "zadd_entry ev s1 e2 = Inr (zadd s1 due n)"
    using n by (simp add: zadd_entry_def due_at_def bind_r_def e2_def due_def)
  have r: "reserve ev e s = (Inr e2, zadd s1 due n)"
    by (simp add: reserve_def nx za)
  have hg: "hget (zadd s1 due n) n ''meta'' = Inr (Some raw)"
    using hget_hset_same[OF h] by (simp add: hget_def zadd_def)
  have fr: "deletes s1 = deletes s" "updates s1 = updates s" "schedule_zset s1 = schedule_zset s"
    using hset_frame[OF h] by simp_all
  show ?thesis
    using r hg fr
    by (auto simp: e2_def due_def zadd_def update_conv')
qed

theorem reserve_advances_witness:
  "\<exists>s'. reserve ev0 e_foo s_empty
            = (Inr (e_foo\<lparr>last_run_at := PDatetime 100000000, total_run_count := PInt 1\<rparr>), s')
        \<and> hget s' ''redbeat:foo'' ''meta'' = Inr (Some ''{}'')
        \<and> map_of (schedule_zset s') ''redbeat:foo'' = Some 130"
proof -
  have c: "total_run_count e_foo = PInt 0" and n: "ename e_foo = PStr ''redbeat:foo''"
    by (simp_all add: e_foo_def)
  have d: "dumps ev0 [(''last_run_at'', PDatetime (now ev0)),
                      (''total_run_count'', PInt (0 + 1))] = Some ''{}''"
    by (simp add: ev0_def d_foo_def)
  have k: "\<forall>w. map_of (keyspace s_empty) ''redbeat:foo'' \<noteq> Some (RString w)"
    by (simp add: s_empty_def)
  have w: "now ev0 = 100000000"
    by (simp add: ev0_def)
  have t: "to_timestamp (100000000 + remaining_estimate ev0 (eschedule e_foo) 100000000) = 130"
    by (simp add: ev0_def to_timestamp_def)
  from reserve_advances[OF c n d k] show ?thesis
    unfolding w t by auto
qed

section \<open>Saving and loading back\<close>

lemma map_of_fold_setattr:
  "map_of (fold (setattr_step d) ks t) k =
     (if k \<in> set ks \<and> k \<notin> {''interval'', ''crontab'', ''schedule''}
      then Some (dict_get d k) else map_of t k)"
  by (induction ks arbitrary: t) (auto simp: setattr_step_def update_conv')

lemma dict_get_update: "dict_get (AList.update k v d) k' = (if k' = k then v else dict_get d k')"
  by (simp add: dict_get_def update_conv')

lemma dict_item_update:
  "dict_item (AList.update k v d) k' = (if k' = k then Inr v else dict_item d k')"
  by (simp add: dict_item_def update_conv')

lemma getattr_Some: "getattr t k = v \<Longrightarrow> v \<noteq> dict_get PeriodicTask_class k \<Longrightarrow> map_of t k = Some v"
  by (auto simp: getattr_def split: option.splits)

lemma interval_in_dict:
  "getattr t ''interval'' = Interval_init e p \<Longrightarrow> map_of t ''interval'' = Some (Interval_init e p)"
  by (rule getattr_Some) (simp_all add: PeriodicTask_class_def dict_get_def Interval_init_def)

lemma crontab_in_dict:
  "getattr t ''crontab'' = Crontab_init a b c d e \<Longrightarrow> map_of t ''crontab'' = Some (Crontab_init a b c d e)"
  by (rule getattr_Some) (simp_all add: PeriodicTask_class_def dict_get_def Crontab_init_def)

lemma name_in_dict: "getattr t ''name'' = PStr n \<Longrightarrow> map_of t ''name'' = Some (PStr n)"
  by (rule getattr_Some) (simp_all add: PeriodicTask_class_def dict_get_def)

lemma getattr_None_dict_get: "getattr t ''crontab'' = PNone \<Longrightarrow> dict_get t ''crontab'' = PNone"
  by (auto simp: getattr_def dict_get_def split: option.splits)

lemma getattr_None_dict_get_i: "getattr t ''interval'' = PNone \<Longrightarrow> dict_get t ''interval'' = PNone"
  by (auto simp: getattr_def dict_get_def split: option.splits)

lemma dict_get_Some: "map_of d k = Some v \<Longrightarrow> dict_get d k = v"
  by (simp add: dict_get_def)

lemma self_dict_interval:
  assumes "getattr t ''interval'' = Interval_init e p" "getattr t ''crontab'' = PNone"
  shows "self_dict t = Inr (AList.update ''interval''
            (PDict [(''every'', e), (''period'', p)]) t)"
proof -
  have 1: "dict_get t ''interval'' = PInterval [(''every'', e), (''period'', p)]"
    using interval_in_dict[OF assms(1)] by (simp add: dict_get_Some Interval_init_def)
  have 2: "dict_get t ''crontab'' = PNone"
    by (rule getattr_None_dict_get[OF assms(2)])
  show ?thesis
    using assms(1) by (simp add: self_dict_def bind_r_def 1 2 dict_get_update Interval_init_def)
qed

lemma self_dict_crontab:
  assumes "getattr t ''crontab'' = Crontab_init mi ho dw dm my" "getattr t ''interval'' = PNone"
  shows "self_dict t = Inr (AList.update ''crontab''
            (PDict [(''minute'', mi), (''hour'', ho), (''day_of_week'', dw),
                    (''day_of_month'', dm), (''month_of_year'', my)]) t)"
proof -
  have 1: "dict_get t ''crontab'' = PCrontab [(''minute'', mi), (''hour'', ho),
              (''day_of_week'', dw), (''day_of_month'', dm), (''month_of_year'', my)]"
    using crontab_in_dict[OF assms(1)] by (simp add: dict_get_Some Crontab_init_def)
  have 2: "dict_get t ''interval'' = PNone"
    by (rule getattr_None_dict_get_i[OF assms(2)])
  show ?thesis
    using assms(1) by (simp add: self_dict_def bind_r_def 1 2 Crontab_init_def)
qed

text \<open>The record that \<open>from_dict\<close> builds from the dictionary saved for a record
  whose policy object is \<open>obj\<close>, under the attribute \<open>pk\<close>.\<close>

lemma dict_get_class_policy:
  "dict_get PeriodicTask_class ''interval'' = PNone"
  "dict_get PeriodicTask_class ''crontab'' = PNone"
  by (simp_all add: PeriodicTask_class_def dict_get_def)

lemma from_dict_saved:
  assumes pol: "(pk = ''interval'' \<and> qk = ''crontab'' \<and> obj = Interval_init e p
                   \<and> flds = [(''every'', e), (''period'', p)])
              \<or> (pk = ''crontab'' \<and> qk = ''interval'' \<and> obj = Crontab_init mi ho dw dm my
                   \<and> flds = [(''minute'', mi), (''hour'', ho), (''day_of_week'', dw),
                                (''day_of_month'', dm), (''month_of_year'', my)])"
    and i: "getattr t pk = obj" and c: "getattr t qk = PNone"
    and n: "getattr t ''name'' = PStr n" and tk: "map_of t ''task'' = Some task"
    and d: "d = AList.update pk (PDict flds) t"
  shows "\<exists>t'. from_dict ev (PDict d) = Inr t'
           \<and> (\<forall>k. k \<noteq> ''schedule'' \<longrightarrow> getattr t' k = getattr t k)"
proof -
  have pq: "pk \<noteq> qk" "pk \<noteq> ''name''" "pk \<noteq> ''task''" "pk \<noteq> ''schedule''"
       "pk \<noteq> ''kwargs''" "pk \<noteq> ''args''" "pk \<noteq> ''enabled''"
    using pol by auto
  have pqs: "pk = ''interval'' \<and> qk = ''crontab'' \<or> pk = ''crontab'' \<and> qk = ''interval''"
    using pol by blast
  have qn: "dict_get t qk = PNone"
    using c pol getattr_None_dict_get getattr_None_dict_get_i by blast
  have s: "from_dict_schedule d = Inr (Some obj)"
    using pol
  proof
    assume "pk = ''interval'' \<and> qk = ''crontab'' \<and> obj = Interval_init e p
                   \<and> flds = [(''every'', e), (''period'', p)]"
    then show ?thesis
      using qn by (simp add: from_dict_schedule_def d dict_get_update bind_r_def dict_item_def)
  next
    assume "pk = ''crontab'' \<and> qk = ''interval'' \<and> obj = Crontab_init mi ho dw dm my
                   \<and> flds = [(''minute'', mi), (''hour'', ho), (''day_of_week'', dw),
                                (''day_of_month'', dm), (''month_of_year'', my)]"
    then show ?thesis
      using qn by (simp add: from_dict_schedule_def d dict_get_update bind_r_def dict_item_def)
  qed
  have dn: "dict_item d ''name'' = Inr (PStr n)"
    using name_in_dict[OF n] pq by (simp add: d dict_item_update) (simp add: dict_item_def)
  have dt: "dict_item d ''task'' = Inr task"
    using tk pq by (simp add: d dict_item_update) (simp add: dict_item_def)
  define t0 where "t0 = AList.update ''name'' (PStr (KEY_PREFIX ev @ n))
      (AList.update ''kwargs'' (PDict []) (AList.update ''args'' (PList [])
        (AList.update pk obj
          (AList.update ''enabled'' (PBool True) (AList.update ''task'' task [])))))"
  have pi: "PeriodicTask_init ev (PStr n) task obj PNone (PBool True)
              (PList []) (PDict []) = Inr t0"
    using pol
    by (auto simp: PeriodicTask_init_def t0_def bind_r_def is_Interval_def is_Crontab_def
          Interval_init_def Crontab_init_def Let_def)
  define t' where "t' = fold (setattr_step d) (map fst d) t0"
  have fd: "from_dict ev (PDict d) = Inr t'"
    by (simp add: from_dict_def s dn dt pi bind_r_def t'_def)
  have dom: "\<And>k. k \<in> set (map fst d) \<longleftrightarrow> k = pk \<or> map_of t k \<noteq> None"
    unfolding d by (auto simp: dom_update map_of_eq_None_iff)
  have t0_dflt: "map_of t0 k = None \<or> map_of t0 k = Some (dict_get PeriodicTask_class k)"
    if "k \<noteq> ''name''" "k \<noteq> ''task''" "k \<noteq> pk" for k
  proof -
    consider "k = ''kwargs''" | "k = ''args''" | "k = ''enabled''"
      | "k \<noteq> ''kwargs'' \<and> k \<noteq> ''args'' \<and> k \<noteq> ''enabled''" by blast
    then show ?thesis
    proof cases
      case 1 then show ?thesis
        using pq by (simp add: t0_def update_conv' PeriodicTask_class_def dict_get_def)
    next
      case 2 then show ?thesis
        using pq by (simp add: t0_def update_conv' PeriodicTask_class_def dict_get_def)
    next
      case 3 then show ?thesis
        using pq by (simp add: t0_def update_conv' PeriodicTask_class_def dict_get_def)
    next
      case 4 then show ?thesis
        using that by (simp add: t0_def update_conv')
    qed
  qed
  have "getattr t' k = getattr t k" if "k \<noteq> ''schedule''" for k
  proof (cases "k = pk \<or> k = qk")
    case True
    then show ?thesis
    proof
      assume k: "k = pk"
      have "k \<in> {''interval'', ''crontab''}"
        using pqs k by blast
      then have "map_of t' k = map_of t0 k"
        by (simp only: t'_def map_of_fold_setattr) auto
      then have "map_of t' k = Some obj"
        using pq by (simp add: k t0_def update_conv')
      then show ?thesis using i by (simp add: getattr_def k)
    next
      assume k: "k = qk"
      have kk: "k \<in> {''interval'', ''crontab''}"
        using pqs k by blast
      then have "map_of t' k = map_of t0 k"
        by (simp only: t'_def map_of_fold_setattr) auto
      then have "map_of t' k = None"
        using pqs k by (auto simp: t0_def update_conv')
      moreover have "dict_get PeriodicTask_class k = PNone"
        using kk dict_get_class_policy by auto
      ultimately show ?thesis using c by (simp add: getattr_def k)
    qed
  next
    case False
    then have ks: "k \<notin> {''interval'', ''crontab'', ''schedule''}"
      using pqs that by blast
    show ?thesis
    proof (cases "map_of t k")
      case None
      then have ne: "k \<noteq> ''name''" "k \<noteq> ''task''" "k \<noteq> pk"
        using name_in_dict[OF n] tk False by auto
      have "k \<notin> set (map fst d)"
        using None False by (simp only: dom) simp
      then have "map_of t' k = map_of t0 k"
        by (simp only: t'_def map_of_fold_setattr) simp
      then show ?thesis
        using t0_dflt[OF ne] None by (auto simp: getattr_def)
    next
      case (Some v)
      then have dv: "dict_get d k = v"
        using False by (simp add: d dict_get_update) (simp add: dict_get_def)
      have "k \<in> set (map fst d)"
        using Some by (simp only: dom) simp
      then have "map_of t' k = Some v"
        using ks dv by (simp only: t'_def map_of_fold_setattr) simp
      then show ?thesis
        using Some by (simp add: getattr_def)
    qed
  qed
  with fd show ?thesis by blast
qed

lemma truthy_policy:
  assumes "(getattr t ''interval'' = Interval_init e p \<and> getattr t ''crontab'' = PNone)
         \<or> (getattr t ''crontab'' = Crontab_init mi ho dw dm my \<and> getattr t ''interval'' = PNone)"
  shows "truthy (getattr t ''interval'') \<noteq> truthy (getattr t ''crontab'')"
  using assms by (auto simp: Interval_init_def Crontab_init_def)

lemma load_stored:
  assumes "hget s n ''periodic'' = Inr (Some raw)" "raw \<noteq> []" "loads ev raw = Some v"
  shows "PeriodicTask_load ev s n = Inr v"
  using assms by (simp add: PeriodicTask_load_def load_answer_def bind_r_def)

text \<open>
  C5. A valid record (one policy object built by its constructor, the other policy
  unset, a string name, a \<open>task\<close>) that is saved and then loaded by its name
  comes back with every attribute as it was: \<open>task\<close>, \<open>args\<close>,
  \<open>kwargs\<close>, \<open>queue\<close>, \<open>exchange\<close>, \<open>routing_key\<close>, the two
  policy attributes, and the rest. The encoder and the decoder are taken to carry
  the record's dictionary to a text and back; \<open>schedule\<close> is a property, not a
  stored attribute.
\<close>

theorem save_load_roundtrip:
  assumes pol: "(getattr t ''interval'' = Interval_init e p \<and> getattr t ''crontab'' = PNone)
         \<or> (getattr t ''crontab'' = Crontab_init mi ho dw dm my \<and> getattr t ''interval'' = PNone)"
    and n: "getattr t ''name'' = PStr n"
    and tk: "map_of t ''task'' = Some task"
    and sd: "self_dict t = Inr d"
    and enc: "dumps ev d = Some raw" and ne: "raw \<noteq> []"
    and dec: "loads ev raw = Some (PDict d)"
    and k: "\<forall>w. map_of (keyspace s) n \<noteq> Some (RString w)"
  shows "\<exists>s' t'. save ev t s = (Inr (), s') \<and> from_key ev s' n = Inr t'
           \<and> (\<forall>a. a \<noteq> ''schedule'' \<longrightarrow> getattr t' a = getattr t a)"
proof -
  obtain s' where sv: "save ev t s = (Inr (), s')"
      and hg: "hget s' n ''periodic'' = Inr (Some raw)"
    using save_writes[OF truthy_policy[OF pol] n sd enc k] by blast
  have ld: "PeriodicTask_load ev s' n = Inr (PDict d)"
    by (rule load_stored[OF hg ne dec])
  obtain pk qk obj flds where
    p: "(pk = ''interval'' \<and> qk = ''crontab'' \<and> obj = Interval_init e p
                   \<and> flds = [(''every'', e), (''period'', p)])
              \<or> (pk = ''crontab'' \<and> qk = ''interval'' \<and> obj = Crontab_init mi ho dw dm my
                   \<and> flds = [(''minute'', mi), (''hour'', ho), (''day_of_week'', dw),
                                (''day_of_month'', dm), (''month_of_year'', my)])"
    and i: "getattr t pk = obj" and c: "getattr t qk = PNone"
    and d: "d = AList.update pk (PDict flds) t"
  proof (rule disjE[OF pol])
    assume h: "getattr t ''interval'' = Interval_init e p \<and> getattr t ''crontab'' = PNone"
    then have "d = AList.update ''interval'' (PDict [(''every'', e), (''period'', p)]) t"
      using self_dict_interval[of t e p] sd by simp
    with h show thesis
      using that[of "''interval''" "''crontab''" "Interval_init e p"
                    "[(''every'', e), (''period'', p)]"] by simp
  next
    assume h: "getattr t ''crontab'' = Crontab_init mi ho dw dm my \<and> getattr t ''interval'' = PNone"
    then have "d = AList.update ''crontab'' (PDict [(''minute'', mi), (''hour'', ho),
        (''day_of_week'', dw), (''day_of_month'', dm), (''month_of_year'', my)]) t"
      using self_dict_crontab[of t mi ho dw dm my] sd by simp
    with h show thesis
      using that[of "''crontab''" "''interval''" "Crontab_init mi ho dw dm my"
                    "[(''minute'', mi), (''hour'', ho),
        (''day_of_week'', dw), (''day_of_month'', dm), (''month_of_year'', my)]"] by simp
  qed
  obtain t' where "from_dict ev (PDict d) = Inr t'"
      "\<forall>a. a \<noteq> ''schedule'' \<longrightarrow> getattr t' a = getattr t a"
    using from_dict_saved[OF p i c n tk d, of ev] by blast
  then show ?thesis
    using sv ld by (auto simp: from_key_def bind_r_def)
qed

theorem save_load_roundtrip_witness:
  "\<exists>s' t'. save ev0 t_foo s_empty = (Inr (), s') \<and> from_key ev0 s' ''redbeat:foo'' = Inr t'
      \<and> getattr t' ''task'' = PStr ''tasks.add''
      \<and> getattr t' ''args'' = PList [PInt 1, PInt 2]
      \<and> getattr t' ''kwargs'' = PDict []
      \<and> getattr t' ''queue'' = PNone
      \<and> getattr t' ''interval'' = PInterval [(''every'', PInt 30), (''period'', PStr ''seconds'')]
      \<and> getattr t' ''crontab'' = PNone"
proof -
  have pol: "(getattr t_foo ''interval'' = Interval_init (PInt 30) (PStr ''seconds'')
               \<and> getattr t_foo ''crontab'' = PNone)
         \<or> (getattr t_foo ''crontab'' = Crontab_init PNone PNone PNone PNone PNone
               \<and> getattr t_foo ''interval'' = PNone)"
    by (simp add: getattr_def t_foo_def Interval_init_def PeriodicTask_class_def dict_get_def)
  have n: "getattr t_foo ''name'' = PStr ''redbeat:foo''"
    by (simp add: getattr_def t_foo_def)
  have tk: "map_of t_foo ''task'' = Some (PStr ''tasks.add'')"
    by (simp add: t_foo_def)
  have enc: "dumps ev0 d_foo = Some ''{foo}''" and ne: "''{foo}'' \<noteq> []"
    and dec: "loads ev0 ''{foo}'' = Some (PDict d_foo)"
    by (simp_all add: ev0_def)
  have k: "\<forall>w. map_of (keyspace s_empty) ''redbeat:foo'' \<noteq> Some (RString w)"
    by (simp add: s_empty_def)
  have g: "getattr t_foo ''task'' = PStr ''tasks.add''"
      "getattr t_foo ''args'' = PList [PInt 1, PInt 2]"
      "getattr t_foo ''kwargs'' = PDict []"
      "getattr t_foo ''queue'' = PNone"
      "getattr t_foo ''interval'' = PInterval [(''every'', PInt 30), (''period'', PStr ''seconds'')]"
      "getattr t_foo ''crontab'' = PNone"
    by (simp_all add: getattr_def t_foo_def PeriodicTask_class_def dict_get_def)
  from save_load_roundtrip[OF pol n tk self_dict_t_foo enc ne dec k]
  obtain s' t' where "save ev0 t_foo s_empty = (Inr (), s')"
     "from_key ev0 s' ''redbeat:foo'' = Inr t'"
     "\<forall>a. a \<noteq> ''schedule'' \<longrightarrow> getattr t' a = getattr t_foo a"
    by blast
  then show ?thesis
    using g by (intro exI[of _ s'] exI[of _ t']) simp
qed

section \<open>Reconciliation\<close>

lemma spop_deletes_frame:
  "updates (snd (spop_deletes s)) = updates s"
  "keyspace (snd (spop_deletes s)) = keyspace s"
  "schedule_zset (snd (spop_deletes s)) = schedule_zset s"
  "errlog (snd (spop_deletes s)) = errlog s"
  by (simp_all add: spop_deletes_def split: list.splits)

lemma spop_deletes_cases:
  "(deletes s = [] \<and> spop_deletes s = (None, s))
   \<or> (\<exists>x xs. deletes s = x # xs \<and> spop_deletes s = (Some x, s\<lparr>deletes := xs\<rparr>))"
  by (cases "deletes s") (simp_all add: spop_deletes_def)

lemma spop_updates_cases:
  "(updates s = [] \<and> spop_updates s = (None, s))
   \<or> (\<exists>x xs. updates s = x # xs \<and> spop_updates s = (Some x, s\<lparr>updates := xs\<rparr>))"
  by (cases "updates s") (simp_all add: spop_updates_def)

text \<open>The first loop, started with the member popped last: it empties the pending
  deletes and takes each of them out of the index; nothing else changes.\<close>

lemma deletes_loop_drains:
  assumes "delete = None \<longrightarrow> deletes s = []" "delete \<noteq> Some []" "[] \<notin> set (deletes s)"
  shows "deletes (deletes_loop delete s) = []
       \<and> updates (deletes_loop delete s) = updates s
       \<and> keyspace (deletes_loop delete s) = keyspace s
       \<and> errlog (deletes_loop delete s) = errlog s
       \<and> (\<forall>m. map_of (schedule_zset (deletes_loop delete s)) m
              = (if m \<in> set_option delete \<union> set (deletes s) then None
                 else map_of (schedule_zset s) m))"
  using assms
proof (induction delete s rule: deletes_loop.induct)
  case (1 delete s)
  show ?case
  proof (cases delete)
    case None
    with 1 show ?thesis by simp
  next
    case (Some d)
    with 1 have dne: "d \<noteq> []" by simp
    let ?s1 = "zrem s d"
    have d1: "deletes ?s1 = deletes s" "updates ?s1 = updates s" "keyspace ?s1 = keyspace s"
      "errlog ?s1 = errlog s"
      by (simp_all add: zrem_def)
    have z1: "map_of (schedule_zset ?s1) = (map_of (schedule_zset s))(d := None)"
      by (simp add: zrem_def delete_conv')
    let ?nx = "fst (spop_deletes ?s1)" and ?s2 = "snd (spop_deletes ?s1)"
    have pre: "?nx = None \<longrightarrow> deletes ?s2 = []" "?nx \<noteq> Some []" "[] \<notin> set (deletes ?s2)"
      and rest: "set_option ?nx \<union> set (deletes ?s2) = set (deletes s)"
      using spop_deletes_cases[of ?s1] 1(4) d1 by auto
    have fr: "updates ?s2 = updates s" "keyspace ?s2 = keyspace s" "errlog ?s2 = errlog s"
      "schedule_zset ?s2 = schedule_zset ?s1"
      using d1 by (simp_all add: spop_deletes_frame)
    have ih: "deletes (deletes_loop ?nx ?s2) = []
       \<and> updates (deletes_loop ?nx ?s2) = updates ?s2
       \<and> keyspace (deletes_loop ?nx ?s2) = keyspace ?s2
       \<and> errlog (deletes_loop ?nx ?s2) = errlog ?s2
       \<and> (\<forall>m. map_of (schedule_zset (deletes_loop ?nx ?s2)) m
              = (if m \<in> set_option ?nx \<union> set (deletes ?s2) then None
                 else map_of (schedule_zset ?s2) m))"
      by (rule 1(1)[OF Some dne pre])
    have unf: "deletes_loop delete s = deletes_loop ?nx ?s2"
      using Some dne by (subst deletes_loop.simps) simp
    show ?thesis
      unfolding unf using ih fr z1 rest Some by (simp del: deletes_loop.simps) 
  qed
qed


lemma Entry_from_key_keyspace:
  "keyspace s = keyspace s' \<Longrightarrow> Entry_from_key ev s u = Entry_from_key ev s' u"
proof -
  assume k: "keyspace s = keyspace s'"
  have h: "hget s = hget s'" "rget s = rget s'"
    by (simp_all add: fun_eq_iff hget_def rget_def k)
  have "Entry_init ev s = Entry_init ev s'"
    by (simp add: fun_eq_iff Entry_init_def Entry_load_def h)
  then show ?thesis
    by (simp add: Entry_from_key_def from_key_def PeriodicTask_load_def h)
qed

lemma zadd_entry_result:
  "zadd_entry ev s e = Inr s' \<Longrightarrow> \<exists>d n. ename e = PStr n \<and> s' = zadd s d n"
  by (cases "ename e") (auto simp: zadd_entry_def bind_r_def split: sum.splits)

lemma update_one_result:
  assumes "update_one ev s u = Inr s'"
  shows "s' = s \<or> (\<exists>e d n. Entry_from_key ev s u = Inr e \<and> ename e = PStr n \<and> s' = zadd s d n)"
proof (cases "Entry_from_key ev s u")
  case (Inl x)
  with assms show ?thesis
    by (auto simp: update_one_def bind_r_def split: exn.splits)
next
  case (Inr e)
  show ?thesis
  proof (cases "zadd_entry ev s e")
    case (Inl x)
    with assms Inr show ?thesis
      by (auto simp: update_one_def bind_r_def split: exn.splits)
  next
    case z: (Inr s2)
    with assms Inr have "s' = s2"
      by (simp add: update_one_def bind_r_def)
    with zadd_entry_result[OF z] Inr show ?thesis by blast
  qed
qed

lemma update_one_frame:
  assumes "update_one ev s u = Inr s'"
  shows "keyspace s' = keyspace s" "deletes s' = deletes s" "updates s' = updates s"
    "errlog s' = errlog s"
  using update_one_result[OF assms] by (auto simp: zadd_def)

text \<open>The second loop, when it ends without an exception: the pending updates are
  empty, and a name that no pending record carries keeps its place in the index.\<close>

lemma updates_loop_drains:
  assumes "updates_loop ev update s = (Inr (), s')"
    and "update = None \<longrightarrow> updates s = []" "update \<noteq> Some []" "[] \<notin> set (updates s)"
    and "\<forall>u\<in>set_option update \<union> set (updates s).
           \<forall>e. Entry_from_key ev s u = Inr e \<longrightarrow> ename e \<noteq> PStr n"
  shows "updates s' = [] \<and> deletes s' = deletes s \<and> keyspace s' = keyspace s
       \<and> map_of (schedule_zset s') n = map_of (schedule_zset s) n"
  using assms
proof (induction ev update s rule: updates_loop.induct)
  case (1 ev update s)
  show ?case
  proof (cases update)
    case None
    with 1(2,3) show ?thesis
      by (simp add: updates_loop.simps)
  next
    case (Some u)
    with 1 have une: "u \<noteq> []" by simp
    obtain s1 where u1: "update_one ev s u = Inr s1"
      using 1(2) Some une by (cases "update_one ev s u") (auto simp: updates_loop.simps)
    let ?nx = "fst (spop_updates s1)" and ?s2 = "snd (spop_updates s1)"
    have unf: "updates_loop ev update s = updates_loop ev ?nx ?s2"
      using Some une u1 by (subst updates_loop.simps) simp
    have f1: "keyspace s1 = keyspace s" "deletes s1 = deletes s" "updates s1 = updates s"
      by (rule update_one_frame[OF u1])+
    have z1: "map_of (schedule_zset s1) n = map_of (schedule_zset s) n"
      using update_one_result[OF u1] 1(6) Some by (auto simp: zadd_def update_conv')
    have pre: "?nx = None \<longrightarrow> updates ?s2 = []" "?nx \<noteq> Some []" "[] \<notin> set (updates ?s2)"
      and rest: "set_option ?nx \<union> set (updates ?s2) = set (updates s)"
      and f2: "keyspace ?s2 = keyspace s" "deletes ?s2 = deletes s"
        "schedule_zset ?s2 = schedule_zset s1"
      using spop_updates_cases[of s1] 1(5) f1 by auto
    have nm: "\<forall>u\<in>set_option ?nx \<union> set (updates ?s2).
           \<forall>e. Entry_from_key ev ?s2 u = Inr e \<longrightarrow> ename e \<noteq> PStr n"
      unfolding rest Entry_from_key_keyspace[OF f2(1)] using 1(6) by blast
    have res: "updates_loop ev ?nx ?s2 = (Inr (), s')"
      using 1(2) unf by simp
    have "updates s' = [] \<and> deletes s' = deletes ?s2 \<and> keyspace s' = keyspace ?s2
       \<and> map_of (schedule_zset s') n = map_of (schedule_zset ?s2) n"
      by (rule 1(1)[OF Some une u1 res pre nm])
    then show ?thesis
      using f2 z1 by simp
  qed
qed

lemma save_ok_updates:
  assumes "save ev t s = (Inr (), s')" "getattr t ''name'' = PStr n"
  shows "n \<in> set (updates s')"
  using assms
  by (auto simp: save_def set_add_def Let_def split: sum.splits option.splits)

lemma delete_result:
  assumes "getattr t ''name'' = PStr n"
  shows "PeriodicTask_delete t s = (Inr (), rdelete (s\<lparr>deletes := set_add n (deletes s)\<rparr>) n)"
  using assms by (simp add: PeriodicTask_delete_def)

lemma load_missing:
  "map_of (keyspace s) n = None \<Longrightarrow> PeriodicTask_load ev s n = Inl (KeyError n)"
  by (simp add: PeriodicTask_load_def load_answer_def hget_def bind_r_def)

lemma update_one_missing:
  "map_of (keyspace s) n = None \<Longrightarrow> update_one ev s n = Inr s"
  by (simp add: update_one_def Entry_from_key_def from_key_def load_missing bind_r_def)

text \<open>
  C4. A record is saved and then deleted, so that its name is pending in both sets, and
  one reconciliation follows and ends without an exception. The first loop empties
  the pending deletes and takes each of them out of the index, leaving the pending
  updates alone; the second loop starts from the store the first one left. The
  pending update of the deleted record finds no record and is passed over. Afterwards
  the name is in neither pending set and not in the index, and loading it raises
  \<open>KeyError\<close>. (Names in the pending sets are not empty, on which either loop
  would stop, and a pending record that loads carries its key as its name.)
\<close>

theorem reconcile_after_save_delete:
  assumes nm: "getattr t ''name'' = PStr n"
    and sv: "save ev t s0 = (Inr (), s1)"
    and dl: "PeriodicTask_delete t s1 = (Inr (), s2)"
    and ned: "[] \<notin> set (deletes s2)" and neu: "[] \<notin> set (updates s2)"
    and wf: "\<forall>u\<in>set (updates s2). \<forall>e. Entry_from_key ev s2 u = Inr e \<longrightarrow> ename e = PStr u"
    and rc: "update_schedule ev s2 = (Inr (), s3)"
    and sd: "sd = deletes_loop (fst (spop_deletes s2)) (snd (spop_deletes s2))"
  shows "n \<in> set (deletes s2) \<and> n \<in> set (updates s2)
       \<and> deletes sd = [] \<and> updates sd = updates s2
       \<and> (\<forall>m. map_of (schedule_zset sd) m
              = (if m \<in> set (deletes s2) then None else map_of (schedule_zset s2) m))
       \<and> update_schedule ev s2 = updates_loop ev (fst (spop_updates sd)) (snd (spop_updates sd))
       \<and> update_one ev sd n = Inr sd
       \<and> map_of (schedule_zset s3) n = None \<and> deletes s3 = [] \<and> updates s3 = []
       \<and> PeriodicTask_load ev s3 n = Inl (KeyError n)"
proof -
  have s2: "s2 = rdelete (s1\<lparr>deletes := set_add n (deletes s1)\<rparr>) n"
    using dl delete_result[OF nm, of s1] by simp
  have k2: "map_of (keyspace s2) n = None"
    by (simp add: s2 rdelete_def delete_conv')
  have pd: "n \<in> set (deletes s2)"
    by (simp add: s2 rdelete_def set_add_def)
  have pu: "n \<in> set (updates s2)"
    using save_ok_updates[OF sv nm] by (simp add: s2 rdelete_def)
  let ?d = "fst (spop_deletes s2)" and ?sp = "snd (spop_deletes s2)"
  have pre: "?d = None \<longrightarrow> deletes ?sp = []" "?d \<noteq> Some []" "[] \<notin> set (deletes ?sp)"
    and rest: "set_option ?d \<union> set (deletes ?sp) = set (deletes s2)"
    using spop_deletes_cases[of s2] ned by auto
  have dr: "deletes sd = []" "updates sd = updates s2" "keyspace sd = keyspace s2"
    "\<forall>m. map_of (schedule_zset sd) m
              = (if m \<in> set (deletes s2) then None else map_of (schedule_zset s2) m)"
    using deletes_loop_drains[OF pre] unfolding rest sd by (simp_all add: spop_deletes_frame)
  have us: "update_schedule ev s2 = updates_loop ev (fst (spop_updates sd)) (snd (spop_updates sd))"
    by (simp add: update_schedule_def sd Let_def)
  have kd: "map_of (keyspace sd) n = None"
    using k2 dr(3) by simp
  have zd: "map_of (schedule_zset sd) n = None"
    using dr(4) pd by simp
  let ?u = "fst (spop_updates sd)" and ?su = "snd (spop_updates sd)"
  have pre2: "?u = None \<longrightarrow> updates ?su = []" "?u \<noteq> Some []" "[] \<notin> set (updates ?su)"
    and rest2: "set_option ?u \<union> set (updates ?su) = set (updates s2)"
    and f2: "keyspace ?su = keyspace s2" "schedule_zset ?su = schedule_zset sd"
    using spop_updates_cases[of sd] neu dr(2,3) by auto
  have names: "\<forall>u\<in>set_option ?u \<union> set (updates ?su).
           \<forall>e. Entry_from_key ev ?su u = Inr e \<longrightarrow> ename e \<noteq> PStr n"
    unfolding rest2 Entry_from_key_keyspace[OF f2(1)]
  proof (intro ballI allI impI)
    fix u e assume u: "u \<in> set (updates s2)" and e: "Entry_from_key ev s2 u = Inr e"
    have "u \<noteq> n"
      using e k2 by (auto simp: Entry_from_key_def from_key_def load_missing bind_r_def)
    moreover have "ename e = PStr u"
      using wf u e by blast
    ultimately show "ename e \<noteq> PStr n" by simp
  qed
  have fin: "updates s3 = [] \<and> deletes s3 = deletes ?su \<and> keyspace s3 = keyspace ?su
       \<and> map_of (schedule_zset s3) n = map_of (schedule_zset ?su) n"
    using updates_loop_drains[OF _ pre2 names] rc us by simp
  have ds: "deletes ?su = []"
    using spop_updates_cases[of sd] dr(1) by auto
  have "map_of (keyspace s3) n = None"
    using fin f2 k2 by simp
  then have ld: "PeriodicTask_load ev s3 n = Inl (KeyError n)"
    by (rule load_missing)
  show ?thesis
    using pd pu dr us update_one_missing[OF kd] fin f2 zd ds ld by simp
qed


lemma scenario_save: "save ev0 t_foo s_indexed = (Inr (), s_saved)"
  by code_simp

lemma scenario_delete: "PeriodicTask_delete t_foo s_saved = (Inr (), s_deleted)"
  by code_simp

lemma scenario_reconcile: "update_schedule ev0 s_deleted = (Inr (), s_reconciled)"
  by code_simp

lemma scenario_names: "\<forall>u\<in>set (updates s_deleted). \<forall>e. Entry_from_key ev0 s_deleted u = Inr e \<longrightarrow> ename e = PStr u"
proof -
  have 1: "case Entry_from_key ev0 s_deleted ''redbeat:baz'' of
             Inl x \<Rightarrow> False | Inr e \<Rightarrow> ename e = PStr ''redbeat:baz''"
    by code_simp
  have 2: "Entry_from_key ev0 s_deleted ''redbeat:foo'' = Inl (KeyError ''redbeat:foo'')"
    by code_simp
  have 3: "set (updates s_deleted) = {''redbeat:baz'', ''redbeat:foo''}"
    by (simp add: s_deleted_def)
  show ?thesis
    unfolding 3 using 1 2 by (auto split: sum.splits)
qed

theorem reconcile_after_save_delete_witness:
  "save ev0 t_foo s_indexed = (Inr (), s_saved)
   \<and> PeriodicTask_delete t_foo s_saved = (Inr (), s_deleted)
   \<and> update_schedule ev0 s_deleted = (Inr (), s_reconciled)
   \<and> ''redbeat:foo'' \<in> set (deletes s_deleted) \<and> ''redbeat:foo'' \<in> set (updates s_deleted)
   \<and> map_of (schedule_zset s_reconciled) ''redbeat:foo'' = None
   \<and> deletes s_reconciled = [] \<and> updates s_reconciled = []
   \<and> PeriodicTask_load ev0 s_reconciled ''redbeat:foo'' = Inl (KeyError ''redbeat:foo'')"
proof -
  have nm: "getattr t_foo ''name'' = PStr ''redbeat:foo''"
    by (simp add: getattr_def t_foo_def)
  have ned: "[] \<notin> set (deletes s_deleted)" and neu: "[] \<notin> set (updates s_deleted)"
    by (simp_all add: s_deleted_def)
  from reconcile_after_save_delete[OF nm scenario_save scenario_delete ned neu scenario_names scenario_reconcile refl] scenario_save scenario_delete scenario_reconcile
  show ?thesis by simp
qed

section \<open>The schedule query\<close>




lemma schedule_changed_iff:
  "schedule_changed s = 0 \<longleftrightarrow> deletes s = [] \<and> updates s = []"
  "0 < schedule_changed s \<longleftrightarrow> deletes s \<noteq> [] \<or> updates s \<noteq> []"
  by (auto simp: schedule_changed_def)

text \<open>A due name that fails to load ends the query with its exception.\<close>

lemma load_entries_fails:
  "\<exists>k\<in>set ks. \<exists>x. Entry_from_key ev s k = Inl x \<Longrightarrow> \<exists>x. load_entries ev s ks = Inl x"
proof (induction ks)
  case Nil
  then show ?case by simp
next
  case (Cons k ks)
  show ?case
  proof (cases "Entry_from_key ev s k")
    case (Inl x)
    then show ?thesis by (simp add: bind_r_def)
  next
    case (Inr e)
    with Cons.prems have "\<exists>k\<in>set ks. \<exists>x. Entry_from_key ev s k = Inl x" by auto
    then obtain x where "load_entries ev s ks = Inl x"
      using Cons.IH by blast
    with Inr show ?thesis by (simp add: bind_r_def)
  qed
qed

lemma schedule_raises:
  assumes "(if deletes s \<noteq> [] \<or> updates s \<noteq> [] then update_schedule ev s else (Inr (), s))
         = (Inr (), s1)"
    and "\<exists>k\<in>set (zrangebyscore s1 0 (to_timestamp (now ev))). \<exists>x. Entry_from_key ev s1 k = Inl x"
  shows "\<exists>x. schedule ev s = (Inl x, s1)"
  using assms(1) load_entries_fails[OF assms(2)]
  by (auto simp: schedule_def schedule_changed_iff Let_def)






section \<open>Failures in the bulk operations\<close>

lemma update_one_KeyError:
  "Entry_from_key ev s u = Inl (KeyError x) \<Longrightarrow> update_one ev s u = Inr s"
  by (simp add: update_one_def bind_r_def)

lemma update_one_other:
  "Entry_from_key ev s u = Inl e \<Longrightarrow> \<forall>x. e \<noteq> KeyError x \<Longrightarrow> update_one ev s u = Inl e"
  by (cases e) (simp_all add: update_one_def bind_r_def)

text \<open>
  C7, as the source has it. In \<open>load_from_database\<close> and in the second loop of
  \<open>update_schedule\<close> a task whose load raises \<open>KeyError\<close> is passed over, with no
  log entry, and the loop goes on with the tasks that remain; a load that raises
  another exception ends the operation with that exception. In
  \<open>update_from_dict\<close> an entry that cannot be built is logged.
\<close>

theorem bulk_skips_missing_records:
  "(from_key ev s task = Inl (KeyError x)
      \<longrightarrow> load_from_database_loop ev (task # tasks) s = load_from_database_loop ev tasks s)
   \<and> (from_key ev s task = Inl e \<and> (\<forall>y. e \<noteq> KeyError y)
      \<longrightarrow> load_from_database_loop ev (task # tasks) s = (Inl e, s))
   \<and> (u \<noteq> [] \<and> Entry_from_key ev s u = Inl (KeyError x)
      \<longrightarrow> updates_loop ev (Some u) s
            = updates_loop ev (fst (spop_updates s)) (snd (spop_updates s)))
   \<and> (u \<noteq> [] \<and> Entry_from_key ev s u = Inl e \<and> (\<forall>y. e \<noteq> KeyError y)
      \<longrightarrow> updates_loop ev (Some u) s = (Inl e, s))
   \<and> (from_entry ev s name entry = Inl exc
      \<longrightarrow> errlog (snd (update_from_dict ev ((name, entry) # rest) s)) = errlog s @ [name])"
proof (intro conjI impI)
  assume "from_key ev s task = Inl (KeyError x)"
  then show "load_from_database_loop ev (task # tasks) s = load_from_database_loop ev tasks s"
    by simp
next
  assume "from_key ev s task = Inl e \<and> (\<forall>y. e \<noteq> KeyError y)"
  then show "load_from_database_loop ev (task # tasks) s = (Inl e, s)"
    by (cases e) simp_all
next
  assume "u \<noteq> [] \<and> Entry_from_key ev s u = Inl (KeyError x)"
  then show "updates_loop ev (Some u) s
            = updates_loop ev (fst (spop_updates s)) (snd (spop_updates s))"
    by (subst updates_loop.simps) (simp add: update_one_KeyError)
next
  assume "u \<noteq> [] \<and> Entry_from_key ev s u = Inl e \<and> (\<forall>y. e \<noteq> KeyError y)"
  then show "updates_loop ev (Some u) s = (Inl e, s)"
    by (subst updates_loop.simps) (simp add: update_one_other)
next
  assume "from_entry ev s name entry = Inl exc"
  then show "errlog (snd (update_from_dict ev ((name, entry) # rest) s)) = errlog s @ [name]"
    by simp
qed

text \<open>
  C7, as the claim has it, fails. The store \<open>s_bad\<close> holds the record \<open>bad\<close>, whose
  dictionary has no policy, before the record \<open>foo\<close>: \<open>load_from_database\<close> ends
  with the exception of \<open>bad\<close>, logs nothing and never reaches \<open>foo\<close>, which alone
  would have been put in the index. In \<open>update_from_dict\<close> the entry \<open>bad\<close> is
  logged, and the statement after the handler then raises, so \<open>good\<close> is not
  reached either.
\<close>

theorem bulk_failure_ends_operation:
  "get_all ev0 s_bad = [''redbeat:bad'', ''redbeat:foo'']
   \<and> load_from_database ev0 s_bad = (Inl (UnboundLocalError ''schedule''), s_bad)
   \<and> errlog s_bad = [] \<and> schedule_zset s_bad = []
   \<and> load_from_database_loop ev0 [''redbeat:foo''] s_bad
       = (Inr (), s_bad\<lparr>schedule_zset := [(''redbeat:foo'', 130)]\<rparr>)
   \<and> update_from_dict ev0 [(''bad'', c_bad), (''good'', c_good)] s_empty
       = (Inl (AttributeError ''_task''), s_empty\<lparr>errlog := [''bad'']\<rparr>)"
  by (intro conjI; code_simp)

theorem bulk_skips_missing_records_witness:
  "from_key ev0 s_bad ''redbeat:gone'' = Inl (KeyError ''redbeat:gone'')
   \<and> load_from_database_loop ev0 [''redbeat:gone'', ''redbeat:foo''] s_bad
       = (Inr (), s_bad\<lparr>schedule_zset := [(''redbeat:foo'', 130)]\<rparr>)
   \<and> load_from_database_loop ev0 [''redbeat:bad'', ''redbeat:foo''] s_bad
       = (Inl (UnboundLocalError ''schedule''), s_bad)
   \<and> updates_loop ev0 (Some ''redbeat:gone'') (s_bad\<lparr>updates := [''redbeat:foo'']\<rparr>)
       = (Inr (), s_bad\<lparr>schedule_zset := [(''redbeat:foo'', 130)]\<rparr>)
   \<and> updates_loop ev0 (Some ''redbeat:bad'') (s_bad\<lparr>updates := [''redbeat:foo'']\<rparr>)
       = (Inl (UnboundLocalError ''schedule''), s_bad\<lparr>updates := [''redbeat:foo'']\<rparr>)
   \<and> errlog (snd (update_from_dict ev0 [(''bad'', c_bad), (''good'', c_good)] s_empty))
       = [''bad'']"
proof -
  let ?su = "s_bad\<lparr>updates := [''redbeat:foo'']\<rparr>"
  have g: "from_key ev0 s_bad ''redbeat:gone'' = Inl (KeyError ''redbeat:gone'')"
    and b: "from_key ev0 s_bad ''redbeat:bad'' = Inl (UnboundLocalError ''schedule'')"
    and gu: "Entry_from_key ev0 ?su ''redbeat:gone'' = Inl (KeyError ''redbeat:gone'')"
    and bu: "Entry_from_key ev0 ?su ''redbeat:bad'' = Inl (UnboundLocalError ''schedule'')"
    and fe: "from_entry ev0 s_empty ''bad'' c_bad = Inl (KeyError ''schedule'')"
    by code_simp+
  have r1: "load_from_database_loop ev0 [''redbeat:foo''] s_bad
       = (Inr (), s_bad\<lparr>schedule_zset := [(''redbeat:foo'', 130)]\<rparr>)"
    and r3: "updates_loop ev0 (fst (spop_updates ?su)) (snd (spop_updates ?su))
       = (Inr (), s_bad\<lparr>schedule_zset := [(''redbeat:foo'', 130)]\<rparr>)"
    and e0: "errlog s_empty = []"
    by code_simp+
  note t = bulk_skips_missing_records[where ev=ev0]
  have 1: "load_from_database_loop ev0 [''redbeat:gone'', ''redbeat:foo''] s_bad
       = (Inr (), s_bad\<lparr>schedule_zset := [(''redbeat:foo'', 130)]\<rparr>)"
    using t[where s=s_bad and task="''redbeat:gone''" and x="''redbeat:gone''"
            and tasks="[''redbeat:foo'']"] g r1 by simp
  have 2: "load_from_database_loop ev0 [''redbeat:bad'', ''redbeat:foo''] s_bad
       = (Inl (UnboundLocalError ''schedule''), s_bad)"
    using t[where s=s_bad and task="''redbeat:bad''" and e="UnboundLocalError ''schedule''"
            and tasks="[''redbeat:foo'']"] b by simp
  have 3: "updates_loop ev0 (Some ''redbeat:gone'') ?su
       = (Inr (), s_bad\<lparr>schedule_zset := [(''redbeat:foo'', 130)]\<rparr>)"
    using t[where s="?su" and u="''redbeat:gone''" and x="''redbeat:gone''"] gu r3
    by (simp del: updates_loop.simps)
  have 4: "updates_loop ev0 (Some ''redbeat:bad'') ?su
       = (Inl (UnboundLocalError ''schedule''), ?su)"
    using t[where s="?su" and u="''redbeat:bad''" and e="UnboundLocalError ''schedule''"] bu
    by (simp del: updates_loop.simps)
  have 5: "errlog (snd (update_from_dict ev0 [(''bad'', c_bad), (''good'', c_good)] s_empty))
       = [''bad'']"
    using t[where s=s_empty and name="''bad''" and entry=c_bad and exc="KeyError ''schedule''"
            and rest="[(''good'', c_good)]"] fe e0
    by (simp del: update_from_dict.simps)
  from g 1 2 3 4 5 show ?thesis by blast
qed

end
